theory Spec2Isabelle
  imports Complex_Main "HOL-Library.Log_Nat"
begin

section \<open>Conventions of the embedding\<close>

text \<open>
  The Python sources (\<^verbatim>\<open>delay.py\<close>, \<^verbatim>\<open>RAiDER/dem.py\<close>,
  \<^verbatim>\<open>RAiDER/models/weatherModel.py\<close>) compute on numpy arrays of IEEE floats.
  The embedding reads a one-dimensional array as a list and a float as a real number:
  rounding, infinities and NaN are not part of the model. The one place where the
  rounding is modelled is the partition of the query points into jobs (\<open>linspace_int\<close>),
  whose indices are cut from products with a rounded quotient. An exception of the program is
  the left injection of a sum type. \<open>OutsideModel\<close> is no exception of the program but
  the border of the model: the model stops with it where the program would continue on
  an infinity or a NaN after a division by zero, where numpy would broadcast arrays of
  different shapes, and where an argument is not of the type the source documents.
\<close>

datatype py_error =
  IndexError | ValueError | RuntimeError | TypeError | AttributeError | OutsideModel

section \<open>Extent predicates (\<^verbatim>\<open>RAiDER/dem.py\<close>)\<close>

text \<open>
  \<^verbatim>\<open>isOutside(extent1, extent2)\<close> and \<^verbatim>\<open>isInside(extent1, extent2)\<close> index both
  arguments at 0..3; a shorter list raises \<^verbatim>\<open>IndexError\<close>.  \<^verbatim>\<open>np.any\<close> of the four
  tests is their disjunction, \<^verbatim>\<open>np.all\<close> their conjunction.
\<close>

definition isOutside :: "real list \<Rightarrow> real list \<Rightarrow> py_error + bool" where
  "isOutside extent1 extent2 =
     (if length extent1 < 4 \<or> length extent2 < 4 then Inl IndexError
      else
        let t1 = extent1 ! 0 < extent2 ! 0;
            t2 = extent1 ! 1 > extent2 ! 1;
            t3 = extent1 ! 2 < extent2 ! 2;
            t4 = extent1 ! 3 > extent2 ! 3
        in if t1 \<or> t2 \<or> t3 \<or> t4 then Inr True else Inr False)"

definition isInside :: "real list \<Rightarrow> real list \<Rightarrow> py_error + bool" where
  "isInside extent1 extent2 =
     (if length extent1 < 4 \<or> length extent2 < 4 then Inl IndexError
      else
        let t1 = extent1 ! 0 \<le> extent2 ! 0;
            t2 = extent1 ! 1 \<ge> extent2 ! 1;
            t3 = extent1 ! 2 \<le> extent2 ! 2;
            t4 = extent1 ! 3 \<ge> extent2 ! 3
        in if t1 \<and> t2 \<and> t3 \<and> t4 then Inr True else Inr False)"

section \<open>Saturation vapour pressure (\<^verbatim>\<open>find_svp\<close>)\<close>

text \<open>
  \<^verbatim>\<open>svp[mask] = src[mask]\<close>: the elements of \<open>dst\<close> under a true mask entry are
  replaced by the elements of \<open>src\<close> at the same index.
\<close>

definition mask_assign :: "bool list \<Rightarrow> 'a list \<Rightarrow> 'a list \<Rightarrow> 'a list" where
  "mask_assign msk dst src = map (\<lambda>(m, d, s). if m then s else d) (zip msk (zip dst src))"

text \<open>
  \<^verbatim>\<open>find_svp(t)\<close> on an array of temperatures. Every operation of the source is
  elementwise; the final \<^verbatim>\<open>astype(np.float32)\<close> is a rounding and has no counterpart
  over the reals. The denominators vanish at 32.18 K, where the water-phase value is
  not the one returned, and at -0.71 K, below any temperature; there the quotient of the
  model is 0 where the program has an infinity.
\<close>

definition find_svp :: "real list \<Rightarrow> real list" where
  "find_svp t =
     (let t1 = 273.15;
          t2 = 250.15;
          tref = map (\<lambda>x. x - t1) t;
          wgt = map (\<lambda>x. (x - t2) / (t1 - t2)) t;
          svpw = map (\<lambda>r. 6.1121 * exp ((17.502 * r) / (240.97 + r))) tref;
          svpi = map (\<lambda>r. 6.1121 * exp ((22.587 * r) / (273.86 + r))) tref;
          svp = map (\<lambda>(i, w, g). i + (w - i) * g\<^sup>2) (zip svpi (zip svpw wgt));
          ix_bound1 = map (\<lambda>x. x > t1) t;
          svp = mask_assign ix_bound1 svp svpw;
          ix_bound2 = map (\<lambda>x. x < t2) t;
          svp = mask_assign ix_bound2 svp svpi
      in map (\<lambda>x. x * 100) svp)"

text \<open>The same computation for a single element of the array.\<close>

definition find_svp_point :: "real \<Rightarrow> real" where
  "find_svp_point t =
     (let t1 = 273.15;
          t2 = 250.15;
          tref = t - t1;
          wgt = (t - t2) / (t1 - t2);
          svpw = 6.1121 * exp ((17.502 * tref) / (240.97 + tref));
          svpi = 6.1121 * exp ((22.587 * tref) / (273.86 + tref));
          svp0 = svpi + (svpw - svpi) * wgt\<^sup>2;
          svp1 = (if t > t1 then svpw else svp0);
          svp2 = (if t < t2 then svpi else svp1)
      in svp2 * 100)"

text \<open>
  The two closed formulas the specification names: the water-phase (Buck-type) value and
  the ice-phase value, both in Pa.
\<close>

definition svp_water_spec :: "real \<Rightarrow> real" where
  "svp_water_spec T = 100 * 6.1121 * exp (17.502 * (T - 273.15) / (240.97 + (T - 273.15)))"

definition svp_ice_spec :: "real \<Rightarrow> real" where
  "svp_ice_spec T = 100 * 6.1121 * exp (22.587 * (T - 273.15) / (273.86 + (T - 273.15)))"

text \<open>The blending weight of the specification, \<open>(T - 250.15) / (273.15 - 250.15)\<close>.\<close>

definition svp_weight_spec :: "real \<Rightarrow> real" where
  "svp_weight_spec T = (T - 250.15) / (273.15 - 250.15)"

section \<open>Ray sampling and delay integration (\<^verbatim>\<open>delay.py\<close>)\<close>

type_synonym vec3 = "real \<times> real \<times> real"

text \<open>
  The module \<^verbatim>\<open>util\<close> is not among the sources. What \<^verbatim>\<open>delay.py\<close> takes from it is a
  parameter of the model: the reference height \<^verbatim>\<open>util.zref\<close>, the trigonometric
  functions of an angle in degrees, and the geodetic-to-Cartesian conversion, all
  elementwise on arrays.
\<close>

record util =
  zref :: real
  cosd :: "real \<Rightarrow> real"
  sind :: "real \<Rightarrow> real"
  lla2ecef :: "real \<Rightarrow> real \<Rightarrow> real \<Rightarrow> vec3"

text \<open>\<^verbatim>\<open>_step = 1\<close>: the step in meters used when integrating.\<close>

definition step :: real where
  "step = 1"

text \<open>
  A line of sight is the class \<^verbatim>\<open>Zenith\<close>, an array of look vectors (shape N x 3) or an
  array of incidence angles (shape N).
\<close>

datatype los = Zenith | Vectors "vec3 list" | Scalars "real list"

definition norm3 :: "vec3 \<Rightarrow> real" where
  "norm3 v = (case v of (x, y, z) \<Rightarrow> sqrt (x\<^sup>2 + y\<^sup>2 + z\<^sup>2))"

definition add3 :: "vec3 \<Rightarrow> vec3 \<Rightarrow> vec3" where
  "add3 a b = (case a of (x, y, z) \<Rightarrow> case b of (x', y', z') \<Rightarrow> (x + x', y + y', z + z'))"

definition scale3 :: "real \<Rightarrow> vec3 \<Rightarrow> vec3" where
  "scale3 c v = (case v of (x, y, z) \<Rightarrow> (c * x, c * y, c * z))"

definition div3 :: "vec3 \<Rightarrow> real \<Rightarrow> vec3" where
  "div3 v c = (case v of (x, y, z) \<Rightarrow> (x / c, y / c, z / c))"

definition third :: "vec3 \<Rightarrow> real" where
  "third v = (case v of (x, y, z) \<Rightarrow> z)"

text \<open>
  \<^verbatim>\<open>np.linspace(start, stop, num)\<close> with the default \<^verbatim>\<open>endpoint=True\<close>: no element for
  \<open>num = 0\<close>, only \<open>start\<close> for \<open>num = 1\<close>, and otherwise \<open>num\<close> elements
  \<open>start + i * (stop - start) / (num - 1)\<close> of which the last is set to \<open>stop\<close>.
\<close>

definition linspace :: "real \<Rightarrow> real \<Rightarrow> nat \<Rightarrow> real list" where
  "linspace start stop num =
     (if num = 0 then []
      else if num = 1 then [start]
      else map (\<lambda>i. start + real i * ((stop - start) / real (num - 1))) [0..<num - 1] @ [stop])"

text \<open>\<^verbatim>\<open>np.diff(x)\<close> is \<^verbatim>\<open>x[1:] - x[:-1]\<close>.\<close>

definition np_diff :: "real list \<Rightarrow> real list" where
  "np_diff x = map2 (\<lambda>b a. b - a) (tl x) (butlast x)"

text \<open>
  \<^verbatim>\<open>np.trapz(y, x)\<close> on one-dimensional arrays is
  \<^verbatim>\<open>(diff(x) * (y[1:] + y[:-1]) / 2.0).sum()\<close>. The product follows numpy's broadcasting:
  operands of equal length are multiplied elementwise, an operand of length one is
  repeated, and any other pair of lengths raises \<^verbatim>\<open>ValueError\<close>.
\<close>

definition trapz :: "real list \<Rightarrow> real list \<Rightarrow> py_error + real" where
  "trapz y x =
     (let d = np_diff x;
          s = map2 (\<lambda>a b. a + b) (tl y) (butlast y)
      in if length d = length s then Inr (sum_list (map2 (\<lambda>di si. di * si / 2) d s))
         else if length d = 1 then Inr (sum_list (map (\<lambda>si. hd d * si / 2) s))
         else if length s = 1 then Inr (sum_list (map (\<lambda>di. di * hd s / 2) d))
         else Inl ValueError)"

text \<open>\<^verbatim>\<open>np.cumsum\<close> and \<^verbatim>\<open>np.roll(a, 1)\<close> on one-dimensional arrays.\<close>

definition cumsum :: "nat list \<Rightarrow> nat list" where
  "cumsum xs = map (\<lambda>i. sum_list (take (Suc i) xs)) [0..<length xs]"

definition roll1 :: "'a list \<Rightarrow> 'a list" where
  "roll1 xs = (if xs = [] then [] else last xs # butlast xs)"

text \<open>A loop whose body may raise stops at the first exception.\<close>

fun collect :: "(py_error + 'a) list \<Rightarrow> py_error + 'a list" where
  "collect [] = Inr []"
| "collect (Inl e # rs) = Inl e"
| "collect (Inr v # rs) = (case collect rs of Inl e \<Rightarrow> Inl e | Inr vs \<Rightarrow> Inr (v # vs))"

text \<open>
  \<^verbatim>\<open>look_vecs /= look_vecs[...,2][...,np.newaxis] / _zref\<close> for one look vector: every
  component is divided by the third component over the reference height.
\<close>

definition rescale_look :: "real \<Rightarrow> vec3 \<Rightarrow> vec3" where
  "rescale_look zr v = div3 v (third v / zr)"

text \<open>
  The zenith look vector of a point: the vector
  \<open>(cosd lat * cosd lon, cosd lat * sind lon, sind lat)\<close> times \<open>zref - height\<close>.
\<close>

definition zenith_look :: "util \<Rightarrow> real \<Rightarrow> real \<Rightarrow> real \<Rightarrow> vec3" where
  "zenith_look u lat lon h =
     (cosd u lat * cosd u lon * (zref u - h),
      cosd u lat * sind u lon * (zref u - h),
      sind u lat * (zref u - h))"

text \<open>
  The first lines of \<^verbatim>\<open>_common_delay\<close>: the cosine correction, \<^verbatim>\<open>None\<close> when
  ray tracing. Without ray tracing the line of sight is documented to be an array of
  incidence angles, and the model follows no other. A zero cosine gives the program
  an infinite correction.
\<close>

definition correction :: "util \<Rightarrow> los \<Rightarrow> bool \<Rightarrow> py_error + real list option" where
  "correction u look_vecs raytrace =
     (if raytrace then Inr None
      else case look_vecs of
             Scalars a \<Rightarrow>
               if list_ex (\<lambda>x. cosd u x = 0) a then Inl OutsideModel
               else Inr (Some (map (\<lambda>x. 1 / cosd u x) a))
           | _ \<Rightarrow> Inl OutsideModel)"

text \<open>
  The look vectors \<^verbatim>\<open>_common_delay\<close> integrates along (the value of \<^verbatim>\<open>look_vecs\<close>
  at the line that computes \<^verbatim>\<open>lengths\<close>). Without ray tracing, and for \<^verbatim>\<open>Zenith\<close>,
  they are the zenith vectors of the points. An explicit array of vectors is rescaled;
  a vector whose third component is zero is divided by zero there. With ray tracing
  the line of sight is documented to be \<^verbatim>\<open>Zenith\<close> or an array of vectors.
\<close>

definition look_vectors ::
  "util \<Rightarrow> real list \<Rightarrow> real list \<Rightarrow> real list \<Rightarrow> los \<Rightarrow> bool \<Rightarrow> py_error + vec3 list" where
  "look_vectors u lats lons heights look_vecs raytrace =
     (case (if raytrace then look_vecs else Zenith) of
        Zenith \<Rightarrow>
          Inr (map (\<lambda>(lat, lon, h). zenith_look u lat lon h) (zip lats (zip lons heights)))
      | Vectors vs \<Rightarrow>
          if list_ex (\<lambda>v. third v = 0) vs then Inl OutsideModel
          else Inr (map (rescale_look (zref u)) vs)
      | Scalars a \<Rightarrow> Inl OutsideModel)"

text \<open>
  The caller's line-of-sight array after a call of \<^verbatim>\<open>_common_delay\<close>: the rescaling of
  explicit look vectors is done in place (\<^verbatim>\<open>/=\<close>), every other case rebinds a local name.
\<close>

definition los_after :: "util \<Rightarrow> los \<Rightarrow> bool \<Rightarrow> los" where
  "los_after u look_vecs raytrace =
     (case look_vecs of
        Vectors vs \<Rightarrow> if raytrace then Vectors (map (rescale_look (zref u)) vs) else look_vecs
      | _ \<Rightarrow> look_vecs)"

text \<open>
  \<^verbatim>\<open>steps = np.array(np.ceil(lengths / _step), dtype=np.int64)\<close> and
  \<^verbatim>\<open>thisspace = np.linspace(0, lengths[i], steps[i])\<close> for one ray of length \<open>len\<close>.
\<close>

definition ray_steps :: "real \<Rightarrow> nat" where
  "ray_steps len = nat \<lceil>len / step\<rceil>"

definition ray_t_points :: "real \<Rightarrow> real list" where
  "ray_t_points len = linspace 0 len (ray_steps len)"

text \<open>
  \<^verbatim>\<open>position = start_positions[i] + thisspace.reshape(-1, 1) * scaled_look_vecs[i]\<close>,
  with \<^verbatim>\<open>scaled_look_vecs = look_vecs / lengths.reshape(-1, 1)\<close>.
\<close>

definition ray_positions :: "vec3 \<Rightarrow> vec3 \<Rightarrow> vec3 list" where
  "ray_positions start look =
     map (\<lambda>t. add3 start (scale3 t (div3 look (norm3 look)))) (ray_t_points (norm3 look))"

text \<open>
  \<^verbatim>\<open>_common_delay(delay, lats, lons, heights, look_vecs, raytrace)\<close>. The arrays of one call
  describe the same N points; the model does not follow arrays of different lengths,
  which numpy would reject or broadcast. For N = 0 the assignment
  \<^verbatim>\<open>indices[0] = 0\<close> raises \<^verbatim>\<open>IndexError\<close>. \<open>delay\<close> is the interpolator of the weather
  object, from an array of positions to an array of refractivities.
\<close>

definition common_delay ::
  "util \<Rightarrow> (vec3 list \<Rightarrow> real list) \<Rightarrow> real list \<Rightarrow> real list \<Rightarrow> real list \<Rightarrow> los \<Rightarrow> bool
     \<Rightarrow> py_error + real list" where
  "common_delay u delay lats lons heights look_vecs raytrace =
     (case correction u look_vecs raytrace of
        Inl e \<Rightarrow> Inl e
      | Inr corr \<Rightarrow>
     (case look_vectors u lats lons heights look_vecs raytrace of
        Inl e \<Rightarrow> Inl e
      | Inr look \<Rightarrow>
          if \<not> (length lons = length lats \<and> length heights = length lats \<and>
                 length look = length lats \<and>
                 (case corr of None \<Rightarrow> True | Some c \<Rightarrow> length c = length lats))
          then Inl OutsideModel
          else
            let lengths = map norm3 look;
                steps = map ray_steps lengths;
                indices = roll1 (cumsum steps)
            in if indices = [] then Inl IndexError
               else
                 let indices = indices[0 := 0];
                     start_positions =
                       map (\<lambda>(lat, lon, h). lla2ecef u lat lon h) (zip lats (zip lons heights));
                     t_points_l = map ray_t_points lengths;
                     positions_l = map2 ray_positions start_positions look;
                     positions_a = concat positions_l;
                     wet_delays = delay positions_a;
                     integrals =
                       map (\<lambda>i. trapz (take (steps ! i) (drop (indices ! i) wet_delays))
                                       (t_points_l ! i))
                           [0..<length steps]
                 in case collect integrals of
                      Inl e \<Rightarrow> Inl e
                    | Inr vals \<Rightarrow>
                        let delays = map (\<lambda>v. 0.000001 * v) vals
                        in (case corr of
                              None \<Rightarrow> Inr delays
                            | Some c \<Rightarrow> Inr (map2 (\<lambda>d k. d * k) delays c))))"

text \<open>
  The delay of one ray when the interpolator works point by point, \<open>delay = map g\<close>:
  \<open>10\<^sup>-\<^sup>6\<close> times the trapezoidal sum of \<open>g\<close> over the samples of the ray; and the
  delay of point \<open>i\<close> of a call, with its cosine correction.
\<close>

definition ray_delay :: "(vec3 \<Rightarrow> real) \<Rightarrow> vec3 \<Rightarrow> vec3 \<Rightarrow> real" where
  "ray_delay g start look =
     (let ts = ray_t_points (norm3 look);
          ys = map g (ray_positions start look)
      in 0.000001 * (\<Sum>m = 0..<length ts - 1. (ts ! (m + 1) - ts ! m) * (ys ! m + ys ! (m + 1)) / 2))"

definition point_delay ::
  "util \<Rightarrow> (vec3 \<Rightarrow> real) \<Rightarrow> real list \<Rightarrow> real list \<Rightarrow> real list \<Rightarrow> vec3 list
     \<Rightarrow> real list option \<Rightarrow> nat \<Rightarrow> real" where
  "point_delay u g lats lons hts look corr i =
     ray_delay g (lla2ecef u (lats ! i) (lons ! i) (hts ! i)) (look ! i) *
       (case corr of None \<Rightarrow> 1 | Some c \<Rightarrow> c ! i)"

text \<open>
  The weather object, as far as \<^verbatim>\<open>delay.py\<close> uses it: its two interpolators.
\<close>

record weather =
  w_wet_delay :: "vec3 list \<Rightarrow> real list"
  w_hydrostatic_delay :: "vec3 list \<Rightarrow> real list"

definition wet_delay ::
  "util \<Rightarrow> weather \<Rightarrow> real list \<Rightarrow> real list \<Rightarrow> real list \<Rightarrow> los \<Rightarrow> bool \<Rightarrow> py_error + real list" where
  "wet_delay u w lats lons heights look_vecs raytrace =
     common_delay u (w_wet_delay w) lats lons heights look_vecs raytrace"

definition hydrostatic_delay ::
  "util \<Rightarrow> weather \<Rightarrow> real list \<Rightarrow> real list \<Rightarrow> real list \<Rightarrow> los \<Rightarrow> bool \<Rightarrow> py_error + real list" where
  "hydrostatic_delay u w lats lons heights look_vecs raytrace =
     common_delay u (w_hydrostatic_delay w) lats lons heights look_vecs raytrace"

text \<open>
  An instance of the parameters, for evaluating the model on concrete inputs: the
  reference height 15000 m, cosine and sine of an angle in degrees, and the Cartesian
  coordinates of a point over a spherical Earth of radius 6371000 m.
\<close>

definition sample_util :: util where
  "sample_util =
     \<lparr>zref = 15000,
      cosd = (\<lambda>x. cos (x * pi / 180)),
      sind = (\<lambda>x. sin (x * pi / 180)),
      lla2ecef = (\<lambda>lat lon h.
        ((6371000 + h) * cos (lat * pi / 180) * cos (lon * pi / 180),
         (6371000 + h) * cos (lat * pi / 180) * sin (lon * pi / 180),
         (6371000 + h) * sin (lat * pi / 180)))\<rparr>"

subsection \<open>Sequential and parallel dispatch (\<^verbatim>\<open>_parmap\<close>, \<^verbatim>\<open>delay_from_grid\<close>)\<close>

text \<open>
  The arithmetic of IEEE 754 double precision, for the indices of the jobs: \<open>float64 x\<close>
  is the double nearest to \<open>x\<close>, a tie going to the even significand.
  \<open>float_exponent x\<close> is the exponent \<open>e\<close> of a positive \<open>x\<close>, where
  \<open>2\<^sup>e \<le> x < 2\<^sup>e\<^sup>+\<^sup>1\<close>, and a double has 53 significant bits, so its last bit is worth
  \<open>2\<^sup>e\<^sup>-\<^sup>5\<^sup>2\<close>. Overflow and subnormal numbers are not modelled: the numbers rounded
  for the indices lie between \<open>1 / num\<close> and the number of query points.
\<close>

definition float_exponent :: "real \<Rightarrow> int" where
  "float_exponent x =
     (if 1 \<le> x then int (floorlog 2 (nat \<lfloor>x\<rfloor>)) - 1
      else - int (floorlog 2 (nat \<lceil>1 / x\<rceil> - 1)))"

definition round_half_even :: "real \<Rightarrow> int" where
  "round_half_even x =
     (let n = \<lfloor>x\<rfloor>; d = x - of_int n
      in if d < 1 / 2 then n else if 1 / 2 < d then n + 1 else if even n then n else n + 1)"

definition float64 :: "real \<Rightarrow> real" where
  "float64 x =
     (if x = 0 then 0
      else let u = 2 powi (float_exponent \<bar>x\<bar> - 52)
           in of_int (round_half_even (x / u)) * u)"

text \<open>
  \<^verbatim>\<open>np.linspace(start, stop, num, dtype=int)\<close> on two integers: numpy computes in doubles
  \<^verbatim>\<open>step = (stop - start) / (num - 1)\<close> and \<^verbatim>\<open>y = arange(0, num) * step + start\<close>, sets
  the last element to \<open>stop\<close>, and rounds every element towards minus infinity. The
  quotient, the products and the sums are rounded to doubles. The two bounds and their
  difference are whole numbers, which are doubles below \<open>2\<^sup>5\<^sup>3\<close>, and are not rounded.
  So \<^verbatim>\<open>np.linspace(0, 122, 15, dtype=int)[7]\<close> is 60, where the exact quotient is 61.
  For \<open>num = 1\<close> there is no step and the one element is \<open>start\<close>; for
  \<open>stop = start\<close> numpy divides the counter before it multiplies by the difference,
  and every element is \<open>start\<close> either way.
\<close>

definition linspace_int :: "nat \<Rightarrow> nat \<Rightarrow> nat \<Rightarrow> nat list" where
  "linspace_int start stop num =
     (if num = 0 then []
      else if num = 1 then [start]
      else
        let step = float64 ((real stop - real start) / real (num - 1))
        in map (\<lambda>i. nat \<lfloor>float64 (float64 (real i * step) + real start)\<rfloor>) [0..<num - 1] @
           [stop])"

text \<open>Indexing an array at \<open>i\<close>; \<^verbatim>\<open>IndexError\<close> beyond its end.\<close>

definition getitem :: "'a list \<Rightarrow> nat \<Rightarrow> py_error + 'a" where
  "getitem xs i = (if i < length xs then Inr (xs ! i) else Inl IndexError)"

text \<open>A slice \<^verbatim>\<open>xs[start:end]\<close>; Python clamps both ends to the list.\<close>

definition slice :: "'a list \<Rightarrow> nat \<Rightarrow> nat \<Rightarrow> 'a list" where
  "slice xs start end = take (end - start) (drop start xs)"

text \<open>
  A job of the parallel path, \<^verbatim>\<open>(job_type, start, end)\<close>, and the element \<open>i\<close> of a job
  generator \<^verbatim>\<open>((kind, indices[i], indices[i + 1]) for i in range(n))\<close>, which raises
  when it is drawn if an index is out of range.
\<close>

type_synonym job = "string \<times> nat \<times> nat"

definition make_job :: "string \<Rightarrow> nat list \<Rightarrow> nat \<Rightarrow> py_error + job" where
  "make_job kind indices i =
     (case getitem indices i of
        Inl e \<Rightarrow> Inl e
      | Inr a \<Rightarrow>
          (case getitem indices (i + 1) of
             Inl e \<Rightarrow> Inl e
           | Inr b \<Rightarrow> Inr (kind, a, b)))"

text \<open>
  The line-of-sight array is shared: \<^verbatim>\<open>los[start:end]\<close> is a view, and
  \<^verbatim>\<open>_common_delay\<close> rescales explicit look vectors in place. \<open>los_slice\<close> reads the view
  and \<open>los_store_slice\<close> is the array after the view has been overwritten.
\<close>

definition los_slice :: "los \<Rightarrow> nat \<Rightarrow> nat \<Rightarrow> los" where
  "los_slice l start end =
     (case l of
        Zenith \<Rightarrow> Zenith
      | Vectors vs \<Rightarrow> Vectors (slice vs start end)
      | Scalars a \<Rightarrow> Scalars (slice a start end))"

definition los_store_slice :: "los \<Rightarrow> nat \<Rightarrow> nat \<Rightarrow> los \<Rightarrow> los" where
  "los_store_slice l start end piece =
     (case (l, piece) of
        (Vectors vs, Vectors ws) \<Rightarrow> Vectors (take start vs @ ws @ drop (start + length ws) vs)
      | _ \<Rightarrow> l)"

text \<open>
  The worker \<^verbatim>\<open>go(job)\<close> of \<^verbatim>\<open>delay_from_grid\<close>, on the shared line-of-sight array:
  its result, and the array as the job leaves it. The array of a job that raises
  is left as it was: the answer of that job stays \<^verbatim>\<open>None\<close>, and the call fails
  whatever the other jobs compute.
\<close>

definition go ::
  "util \<Rightarrow> weather \<Rightarrow> real list \<Rightarrow> real list \<Rightarrow> real list \<Rightarrow> bool \<Rightarrow> job \<Rightarrow> los
     \<Rightarrow> (py_error + real list) \<times> los" where
  "go u w lats lons hts raytrace job l =
     (case job of (job_type, start, end) \<Rightarrow>
        let my_los = los_slice l start end;
            result =
              (if job_type = ''hydro''
               then hydrostatic_delay u w (slice lats start end) (slice lons start end)
                      (slice hts start end) my_los raytrace
               else if job_type = ''wet''
               then wet_delay u w (slice lats start end) (slice lons start end)
                      (slice hts start end) my_los raytrace
               else Inl ValueError)
        in case result of
             Inl e \<Rightarrow> (Inl e, l)
           | Inr d \<Rightarrow> (Inr d, los_store_slice l start end (los_after u my_los raytrace)))"

text \<open>
  The threads of \<^verbatim>\<open>_parmap\<close>. Every job is taken from the queue once, and the order in
  which the jobs run is not determined by the program: it is the parameter \<open>sched\<close>, a
  list of job numbers. A job runs as one step. Its result is written to its own slot
  of \<open>answers\<close>; if it raises, its thread ends and the slot stays \<^verbatim>\<open>None\<close>.
\<close>

fun run_jobs ::
  "('j \<Rightarrow> 's \<Rightarrow> (py_error + 'r) \<times> 's) \<Rightarrow> 'j list \<Rightarrow> nat list \<Rightarrow> 'r option list \<times> 's
     \<Rightarrow> 'r option list \<times> 's" where
  "run_jobs f jobs [] state = state"
| "run_jobs f jobs (k # ks) (answers, store) =
     (if k < length jobs
      then (case f (jobs ! k) store of
              (Inl e, store') \<Rightarrow> run_jobs f jobs ks (answers, store')
            | (Inr r, store') \<Rightarrow> run_jobs f jobs ks (answers[k := Some r], store'))
      else run_jobs f jobs ks (answers, store))"

text \<open>
  \<^verbatim>\<open>_parmap(f, i)\<close>: the loop that fills the queue draws every element of the generator
  \<open>i\<close>, and an element that raises ends the call before a thread is started.
\<close>

definition parmap ::
  "('j \<Rightarrow> 's \<Rightarrow> (py_error + 'r) \<times> 's) \<Rightarrow> (py_error + 'j) list \<Rightarrow> nat list \<Rightarrow> 's
     \<Rightarrow> py_error + 'r option list \<times> 's" where
  "parmap f i sched store =
     (case collect i of
        Inl e \<Rightarrow> Inl e
      | Inr jobs \<Rightarrow> Inr (run_jobs f jobs sched (replicate (length jobs) None, store)))"

text \<open>
  \<^verbatim>\<open>np.concatenate\<close> of a list of answers: \<^verbatim>\<open>ValueError\<close> for the empty list and for a
  list with a \<^verbatim>\<open>None\<close>.
\<close>

definition np_concatenate :: "real list option list \<Rightarrow> py_error + real list" where
  "np_concatenate rs =
     (if rs = [] \<or> list_ex (\<lambda>r. r = None) rs then Inl ValueError
      else Inr (concat (map the rs)))"

text \<open>
  \<^verbatim>\<open>los.reshape(-1, 3)\<close> of an array of scalars, and the two reshapes at the head of
  \<^verbatim>\<open>delay_from_grid\<close>.
\<close>

fun reshape3 :: "real list \<Rightarrow> py_error + vec3 list" where
  "reshape3 [] = Inr []"
| "reshape3 (x # y # z # rest) =
     (case reshape3 rest of Inl e \<Rightarrow> Inl e | Inr vs \<Rightarrow> Inr ((x, y, z) # vs))"
| "reshape3 _ = Inl ValueError"

definition reshape_los :: "los \<Rightarrow> bool \<Rightarrow> py_error + los" where
  "reshape_los l raytrace =
     (case l of
        Zenith \<Rightarrow> Inr Zenith
      | Vectors vs \<Rightarrow>
          if raytrace then Inr (Vectors vs)
          else Inr (Scalars (concat (map (\<lambda>(x, y, z). [x, y, z]) vs)))
      | Scalars a \<Rightarrow>
          if raytrace
          then (case reshape3 a of Inl e \<Rightarrow> Inl e | Inr vs \<Rightarrow> Inr (Vectors vs))
          else Inr (Scalars a))"

text \<open>
  \<^verbatim>\<open>np.stack((hydro, wet)).reshape((2,) + real_shape)\<close> for \<open>n\<close> query points: both arrays
  must have the same length, and that length must be \<open>n\<close>.
\<close>

definition restore_shape :: "nat \<Rightarrow> real list \<Rightarrow> real list \<Rightarrow> py_error + real list \<times> real list" where
  "restore_shape n hydro wet =
     (if length hydro \<noteq> length wet \<or> length hydro \<noteq> n then Inl ValueError
      else Inr (hydro, wet))"

text \<open>
  \<^verbatim>\<open>delay_from_grid(weather, llas, los, parallel, raytrace)\<close>. \<open>llas\<close> is the array of
  query points, one (lat, lon, height) per row. \<open>num_procs\<close> is the value of
  \<^verbatim>\<open>os.cpu_count()\<close> and \<open>sched\<close> the order in which the threads run the jobs; neither
  is read on the sequential path. On the sequential path the wet delay is computed on
  the line-of-sight array as the hydrostatic call has left it.
\<close>

definition delay_from_grid ::
  "util \<Rightarrow> nat \<Rightarrow> nat list \<Rightarrow> weather \<Rightarrow> (real \<times> real \<times> real) list \<Rightarrow> los \<Rightarrow> bool \<Rightarrow> bool
     \<Rightarrow> py_error + real list \<times> real list" where
  "delay_from_grid u num_procs sched w llas los_arg parallel raytrace =
     (case reshape_los los_arg raytrace of
        Inl e \<Rightarrow> Inl e
      | Inr l \<Rightarrow>
          let lats = map fst llas;
              lons = map (\<lambda>p. fst (snd p)) llas;
              hts = map (\<lambda>p. snd (snd p)) llas
          in if parallel
             then
               let hydro_procs = num_procs div 2;
                   wet_procs = num_procs - hydro_procs;
                   hindices = linspace_int 0 (length llas) (hydro_procs + 1);
                   windices = linspace_int 0 (length llas) (wet_procs + 1);
                   hjobs = map (make_job ''hydro'' hindices) [0..<hydro_procs];
                   wjobs = map (make_job ''wet'' hindices) [0..<wet_procs];
                   jobs = hjobs @ wjobs
               in case parmap (go u w lats lons hts raytrace) jobs sched l of
                    Inl e \<Rightarrow> Inl e
                  | Inr (result, l') \<Rightarrow>
                      (case np_concatenate (take hydro_procs result) of
                         Inl e \<Rightarrow> Inl e
                       | Inr hydro \<Rightarrow>
                           (case np_concatenate (drop hydro_procs result) of
                              Inl e \<Rightarrow> Inl e
                            | Inr wet \<Rightarrow> restore_shape (length llas) hydro wet))
             else
               case hydrostatic_delay u w lats lons hts l raytrace of
                 Inl e \<Rightarrow> Inl e
               | Inr hydro \<Rightarrow>
                   (case wet_delay u w lats lons hts (los_after u l raytrace) raytrace of
                      Inl e \<Rightarrow> Inl e
                    | Inr wet \<Rightarrow> restore_shape (length llas) hydro wet))"

text \<open>
  A weather object of constant refractivity, 230 ppm hydrostatic and 10 ppm wet, for
  evaluating the model on concrete inputs.
\<close>

definition sample_weather :: weather where
  "sample_weather =
     \<lparr>w_wet_delay = map (\<lambda>p. 10), w_hydrostatic_delay = map (\<lambda>p. 230)\<rparr>"

section \<open>The weather model (\<^verbatim>\<open>RAiDER/models/weatherModel.py\<close>)\<close>

text \<open>
  A three-dimensional array indexed (y, x, z) is a list of rows of columns; all rows have
  the same length and all columns have the same length. \<open>has_shape\<close> says so, and
  \<open>shape3\<close> reads the \<^verbatim>\<open>shape\<close> of a non-empty array.
\<close>

type_synonym array3 = "real list list list"

definition has_shape :: "array3 \<Rightarrow> nat \<Rightarrow> nat \<Rightarrow> nat \<Rightarrow> bool" where
  "has_shape a ny nx nz =
     (length a = ny \<and>
      list_all (\<lambda>row. length row = nx \<and> list_all (\<lambda>col. length col = nz) row) a)"

definition shape3 :: "array3 \<Rightarrow> nat \<times> nat \<times> nat" where
  "shape3 a =
     (case a of
        [] \<Rightarrow> (0, 0, 0)
      | row # _ \<Rightarrow>
          (case row of
             [] \<Rightarrow> (length a, 0, 0)
           | col # _ \<Rightarrow> (length a, length row, length col)))"

text \<open>\<^verbatim>\<open>np.zeros(shape)\<close>.\<close>

definition zeros3 :: "nat \<times> nat \<times> nat \<Rightarrow> array3" where
  "zeros3 s = (case s of (ny, nx, nz) \<Rightarrow> replicate ny (replicate nx (replicate nz 0)))"

text \<open>
  An element of \<^verbatim>\<open>_valid_range\<close>: a \<^verbatim>\<open>datetime.datetime\<close> or a \<^verbatim>\<open>datetime.date\<close> (both
  in seconds since the epoch), the string \<^verbatim>\<open>'Present'\<close>, or \<^verbatim>\<open>None\<close>.
\<close>

datatype range_bound = DateTime int | Date int | Present | NoBound

text \<open>
  The attributes of a \<^verbatim>\<open>WeatherModel\<close> object that the modelled methods read or write.
  \<^verbatim>\<open>_Name\<close> is set by every concrete subclass; what else a subclass keeps is the
  extension of the record. An attribute that \<^verbatim>\<open>__init__\<close> sets to \<^verbatim>\<open>None\<close> is an
  option. \<^verbatim>\<open>_zs\<close> is the one-dimensional z axis the grid has once \<^verbatim>\<open>_uniform_in_z\<close>
  has run. Times are seconds since the epoch and \<^verbatim>\<open>_lag_time\<close> is in seconds.
\<close>

record weather_model =
  wm_Name :: string
  wm_valid_range :: "range_bound list"
  wm_lag_time :: int
  wm_time :: "int option"
  wm_lat_res :: "real option"
  wm_lon_res :: "real option"
  wm_k1 :: "real option"
  wm_k2 :: "real option"
  wm_k3 :: "real option"
  wm_humidityType :: string
  wm_R_v :: real
  wm_R_d :: real
  wm_zmin :: real
  wm_zmax :: real
  wm_files :: "string list option"
  wm_bbox :: "(real \<times> real \<times> real \<times> real) option"
  wm_zs :: "real list"
  wm_lats :: "array3 option"
  wm_lons :: "array3 option"
  wm_ll_bounds :: "(real \<times> real \<times> real \<times> real) option"
  wm_p :: "array3 option"
  wm_q :: "array3 option"
  wm_rh :: "array3 option"
  wm_t :: "array3 option"
  wm_e :: "array3 option"
  wm_wet_refractivity :: "array3 option"
  wm_hydrostatic_refractivity :: "array3 option"
  wm_wet_ztd :: "array3 option"
  wm_hydrostatic_ztd :: "array3 option"
  wm_out_name :: "string option"

subsection \<open>Zenith delays at the grid nodes (\<^verbatim>\<open>_getZTD\<close>)\<close>

text \<open>\<^verbatim>\<open>a[..., k:]\<close>: every column from level \<open>k\<close> on.\<close>

definition drop_axis2 :: "nat \<Rightarrow> array3 \<Rightarrow> array3" where
  "drop_axis2 k a = map (map (drop k)) a"

text \<open>
  \<^verbatim>\<open>np.trapz(y, x=x, axis=2)\<close> with a one-dimensional \<open>x\<close>: the integral of every column
  of \<open>y\<close> over \<open>x\<close>, one value per horizontal node.
\<close>

definition trapz_axis2 :: "array3 \<Rightarrow> real list \<Rightarrow> py_error + real list list" where
  "trapz_axis2 y x = collect (map (\<lambda>row. collect (map (\<lambda>col. trapz col x) row)) y)"

text \<open>
  \<^verbatim>\<open>total[..., level] = plane\<close>: the value of every column at \<open>level\<close> is replaced; a
  level beyond the columns raises \<^verbatim>\<open>IndexError\<close>, a plane of another shape
  \<^verbatim>\<open>ValueError\<close>.
\<close>

definition set_level :: "array3 \<Rightarrow> nat \<Rightarrow> real list list \<Rightarrow> py_error + array3" where
  "set_level tot level plane =
     (if list_ex (\<lambda>row. list_ex (\<lambda>col. length col \<le> level) row) tot then Inl IndexError
      else if map length tot \<noteq> map length plane then Inl ValueError
      else Inr (map2 (map2 (\<lambda>col v. col[level := v])) tot plane))"

text \<open>
  The loop of \<^verbatim>\<open>_getZTD\<close> over the levels still to do: at each level, both totals get
  \<open>10\<^sup>-\<^sup>6\<close> times the integral of the refractivity from that level upward.
\<close>

fun ztd_loop ::
  "real list \<Rightarrow> array3 \<Rightarrow> array3 \<Rightarrow> nat list \<Rightarrow> array3 \<times> array3 \<Rightarrow> py_error + array3 \<times> array3" where
  "ztd_loop zs wet hydro [] totals = Inr totals"
| "ztd_loop zs wet hydro (level # rest) (wet_total, hydro_total) =
     (case trapz_axis2 (drop_axis2 level wet) (drop level zs) of
        Inl e \<Rightarrow> Inl e
      | Inr wp \<Rightarrow>
     (case set_level wet_total level (map (map (\<lambda>v. 0.000001 * v)) wp) of
        Inl e \<Rightarrow> Inl e
      | Inr wet_total' \<Rightarrow>
     (case trapz_axis2 (drop_axis2 level hydro) (drop level zs) of
        Inl e \<Rightarrow> Inl e
      | Inr hp \<Rightarrow>
     (case set_level hydro_total level (map (map (\<lambda>v. 0.000001 * v)) hp) of
        Inl e \<Rightarrow> Inl e
      | Inr hydro_total' \<Rightarrow> ztd_loop zs wet hydro rest (wet_total', hydro_total')))))"

text \<open>
  \<^verbatim>\<open>_getZTD(self, zref=None)\<close>. The reference height is read, and defaulted to
  \<^verbatim>\<open>self._zmax\<close>, but the integration never uses it. \<^verbatim>\<open>self._lats.shape\<close>,
  \<^verbatim>\<open>wet.shape\<close> and \<^verbatim>\<open>hydro.shape\<close> raise \<^verbatim>\<open>AttributeError\<close> on \<^verbatim>\<open>None\<close>.
\<close>

definition getZTD ::
  "real option \<Rightarrow> 'a weather_model_scheme \<Rightarrow> py_error + 'a weather_model_scheme" where
  "getZTD zref_arg self =
     (let zref_used = (case zref_arg of None \<Rightarrow> wm_zmax self | Some z \<Rightarrow> z)
      in case wm_lats self of
           None \<Rightarrow> Inl AttributeError
         | Some lats \<Rightarrow>
        (case wm_wet_refractivity self of
           None \<Rightarrow> Inl AttributeError
         | Some wet \<Rightarrow>
        (case wm_hydrostatic_refractivity self of
           None \<Rightarrow> Inl AttributeError
         | Some hydro \<Rightarrow>
        (case ztd_loop (wm_zs self) wet hydro [0..<snd (snd (shape3 wet))]
                (zeros3 (shape3 wet), zeros3 (shape3 hydro)) of
           Inl e \<Rightarrow> Inl e
         | Inr (wet_total, hydro_total) \<Rightarrow>
             Inr (self\<lparr>wm_hydrostatic_ztd := Some hydro_total,
                       wm_wet_ztd := Some wet_total\<rparr>)))))"

text \<open>
  The specification's zenith integral: the trapezoidal integral of a profile \<open>f\<close> over
  the stored levels \<open>z\<close>, from level \<open>k\<close> up to the last stored level.
\<close>

definition trapezoid_upward_spec :: "real list \<Rightarrow> real list \<Rightarrow> nat \<Rightarrow> real" where
  "trapezoid_upward_spec z f k =
     (\<Sum>m = k..<length z - 1. (z ! (m + 1) - z ! m) * (f ! m + f ! (m + 1)) / 2)"

subsection \<open>Checking the query time (\<^verbatim>\<open>checkTime\<close>, \<^verbatim>\<open>checkLL\<close>, \<^verbatim>\<open>fetch\<close>)\<close>

text \<open>
  \<^verbatim>\<open>checkTime(self, time)\<close>, with the value \<open>now\<close> of \<^verbatim>\<open>datetime.datetime.utcnow()\<close>.
  The log call at its head reads \<^verbatim>\<open>_valid_range[0]\<close> and \<^verbatim>\<open>_valid_range[1]\<close>, so a
  range of fewer than two elements raises \<^verbatim>\<open>IndexError\<close>. Comparing the query time, a
  \<^verbatim>\<open>datetime\<close>, with a \<^verbatim>\<open>date\<close>, a string or \<^verbatim>\<open>None\<close> raises \<^verbatim>\<open>TypeError\<close>.
\<close>

definition checkTime :: "'a weather_model_scheme \<Rightarrow> int \<Rightarrow> int \<Rightarrow> py_error + unit" where
  "checkTime self now time =
     (if length (wm_valid_range self) < 2 then Inl IndexError
      else
        case wm_valid_range self ! 0 of
          DateTime lower \<Rightarrow>
            if time < lower then Inl RuntimeError
            else
              (case wm_valid_range self ! 1 of
                 Date d \<Rightarrow> Inl TypeError
               | DateTime upper \<Rightarrow>
                   if upper < time then Inl RuntimeError
                   else if time > now - wm_lag_time self then Inl RuntimeError
                   else Inr ()
               | _ \<Rightarrow>
                   if time > now - wm_lag_time self then Inl RuntimeError
                   else Inr ())
        | _ \<Rightarrow> Inl TypeError)"

text \<open>
  \<^verbatim>\<open>checkLL(self, lats, lons, Nextra=2)\<close>: the query coordinates are clamped into the
  area the model covers; the source assigns under a mask, first for the lower and then
  for the upper bound. A resolution that is still \<^verbatim>\<open>None\<close> raises \<^verbatim>\<open>TypeError\<close> in the
  product with \<^verbatim>\<open>Nextra\<close>. The source compares the name with \<^verbatim>\<open>is\<close>, which for
  these string literals is equality.
\<close>

definition checkLL ::
  "'a weather_model_scheme \<Rightarrow> real list \<Rightarrow> real list \<Rightarrow> real
     \<Rightarrow> py_error + real list \<times> real list" where
  "checkLL self lats lons Nextra =
     (case wm_lat_res self of
        None \<Rightarrow> Inl TypeError
      | Some lat_res \<Rightarrow>
     (case wm_lon_res self of
        None \<Rightarrow> Inl TypeError
      | Some lon_res \<Rightarrow>
          let ex_buffer_lon_max =
                (if wm_Name self = ''GMAO'' \<or> wm_Name self = ''MERRA2'' then lon_res else 0);
              ex_buffer_lat_min = 0;
              ex_buffer_lat_max = 0;
              ex_buffer_lon_min = 0;
              lat_lo = - 90 + Nextra * lat_res + ex_buffer_lat_min;
              lat_hi = 90 - Nextra * lat_res - ex_buffer_lat_max;
              lon_lo = - 180 + Nextra * lon_res + ex_buffer_lon_min;
              lon_hi = 180 - Nextra * lon_res - ex_buffer_lon_max;
              lats = mask_assign (map (\<lambda>x. x < lat_lo) lats) lats (map (\<lambda>x. lat_lo) lats);
              lats = mask_assign (map (\<lambda>x. x > lat_hi) lats) lats (map (\<lambda>x. lat_hi) lats);
              lons = mask_assign (map (\<lambda>x. x < lon_lo) lons) lons (map (\<lambda>x. lon_lo) lons);
              lons = mask_assign (map (\<lambda>x. x > lon_hi) lons) lons (map (\<lambda>x. lon_hi) lons)
          in Inr (lats, lons)))"

text \<open>
  \<^verbatim>\<open>fetch(self, out, lats, lons, time)\<close>. The abstract method \<^verbatim>\<open>_fetch\<close> of the subclass
  is the parameter \<open>fetch_impl\<close>; it downloads or computes, so it works on the object and
  on the world outside it, of any type \<open>'w\<close>. The result is the exception raised, if
  any, with the object and the world as the call leaves them.
\<close>

definition fetch ::
  "(real list \<Rightarrow> real list \<Rightarrow> int \<Rightarrow> string \<Rightarrow> 'a weather_model_scheme \<times> 'w
      \<Rightarrow> py_error option \<times> 'a weather_model_scheme \<times> 'w)
   \<Rightarrow> int \<Rightarrow> string \<Rightarrow> real list \<Rightarrow> real list \<Rightarrow> int \<Rightarrow> 'a weather_model_scheme \<times> 'w
   \<Rightarrow> py_error option \<times> 'a weather_model_scheme \<times> 'w" where
  "fetch fetch_impl now out lats lons time state =
     (case state of (self, world) \<Rightarrow>
        case checkTime self now time of
          Inl e \<Rightarrow> (Some e, self, world)
        | Inr _ \<Rightarrow>
       (case checkLL self lats lons 2 of
          Inl e \<Rightarrow> (Some e, self, world)
        | Inr (lats', lons') \<Rightarrow>
            fetch_impl lats' lons' time out (self\<lparr>wm_time := Some time\<rparr>, world)))"

subsection \<open>The name of the prepared grid (\<^verbatim>\<open>out_file\<close>)\<close>

text \<open>
  What the methods below take from outside the object: the formatting of a time by
  \<^verbatim>\<open>strftime("%Y_%m_%d_T%H_%M_%S")\<close> and the bounds that \<^verbatim>\<open>rasterio\<close> reads from a
  weather file (xmin, ymin, xmax, ymax). The files on disk are a set of paths.
\<close>

record env =
  strftime :: "int \<Rightarrow> string"
  raster_bounds :: "string \<Rightarrow> real \<times> real \<times> real \<times> real"

text \<open>The decimal digits of a natural number, as \<^verbatim>\<open>'{:.0f}'\<close> prints a whole float.\<close>

fun show_nat :: "nat \<Rightarrow> string" where
  "show_nat n =
     (if n < 10 then [''0123456789'' ! n]
      else show_nat (n div 10) @ [''0123456789'' ! (n mod 10)])"

declare show_nat.simps [simp del]

text \<open>
  \<^verbatim>\<open>make_weather_model_filename(name, time, ll_bounds)\<close>, on the formatted time: the
  name, the time, and of every bound the ceiling of its absolute value with its
  hemisphere letter.
\<close>

definition make_weather_model_filename ::
  "string \<Rightarrow> string \<Rightarrow> real \<times> real \<times> real \<times> real \<Rightarrow> string" where
  "make_weather_model_filename name time_str ll_bounds =
     (case ll_bounds of (b0, b1, b2, b3) \<Rightarrow>
        let S = (if b0 < 0 then ''S'' else ''N'');
            N = (if b1 < 0 then ''S'' else ''N'');
            W = (if b2 < 0 then ''W'' else ''E'');
            E = (if b3 < 0 then ''W'' else ''E'')
        in name @ ''_'' @ time_str @ ''_'' @
           show_nat (nat \<lceil>\<bar>b0\<bar>\<rceil>) @ S @ ''_'' @
           show_nat (nat \<lceil>\<bar>b1\<bar>\<rceil>) @ N @ ''_'' @
           show_nat (nat \<lceil>\<bar>b2\<bar>\<rceil>) @ W @ ''_'' @
           show_nat (nat \<lceil>\<bar>b3\<bar>\<rceil>) @ E @ ''.nc'')"

text \<open>\<^verbatim>\<open>os.path.join(a, b)\<close> on POSIX paths.\<close>

definition os_path_join :: "string \<Rightarrow> string \<Rightarrow> string" where
  "os_path_join a b =
     (if b \<noteq> [] \<and> hd b = CHR ''/'' then b
      else if a = [] \<or> last a = CHR ''/'' then a @ b
      else a @ ''/'' @ b)"

text \<open>
  The property \<^verbatim>\<open>bbox\<close>: the cached bounds, or the bounds read from the first weather
  file, which are then cached; \<^verbatim>\<open>ValueError\<close> without files.
\<close>

definition bbox ::
  "env \<Rightarrow> 'a weather_model_scheme
     \<Rightarrow> py_error + (real \<times> real \<times> real \<times> real) \<times> 'a weather_model_scheme" where
  "bbox ev self =
     (case wm_bbox self of
        Some b \<Rightarrow> Inr (b, self)
      | None \<Rightarrow>
          (case wm_files self of
             None \<Rightarrow> Inl ValueError
           | Some fs \<Rightarrow>
               (case fs of
                  [] \<Rightarrow> Inl IndexError
                | weather_model_path # _ \<Rightarrow>
                    let b = raster_bounds ev weather_model_path
                    in Inr (b, self\<lparr>wm_bbox := Some b\<rparr>))))"

text \<open>\<^verbatim>\<open>arr.flatten()\<close> of a three-dimensional array.\<close>

definition flatten3 :: "array3 \<Rightarrow> real list" where
  "flatten3 a = concat (concat a)"

text \<open>
  \<^verbatim>\<open>np.nanmin\<close> and \<^verbatim>\<open>np.nanmax\<close> of an array given or \<^verbatim>\<open>None\<close>: \<^verbatim>\<open>TypeError\<close> on
  \<^verbatim>\<open>None\<close>, \<^verbatim>\<open>ValueError\<close> on an empty array.
\<close>

definition nanmin :: "real list option \<Rightarrow> py_error + real" where
  "nanmin a =
     (case a of
        None \<Rightarrow> Inl TypeError
      | Some xs \<Rightarrow> (case xs of [] \<Rightarrow> Inl ValueError | x # rest \<Rightarrow> Inr (fold min rest x)))"

definition nanmax :: "real list option \<Rightarrow> py_error + real" where
  "nanmax a =
     (case a of
        None \<Rightarrow> Inl TypeError
      | Some xs \<Rightarrow> (case xs of [] \<Rightarrow> Inl ValueError | x # rest \<Rightarrow> Inr (fold max rest x)))"

text \<open>Sequencing of calls that may raise.\<close>

definition bindE :: "py_error + 'a \<Rightarrow> ('a \<Rightarrow> py_error + 'b) \<Rightarrow> py_error + 'b" where
  "bindE m f = (case m of Inl e \<Rightarrow> Inl e | Inr x \<Rightarrow> f x)"

text \<open>
  \<^verbatim>\<open>_get_ll_bounds(self, lats, lons, Nextra)\<close>: the extent of the given coordinates, or
  of the grid's own, widened by \<^verbatim>\<open>Nextra\<close> cells; without either, the bounding box of
  the weather file. The result is (lat_min, lat_max, lon_min, lon_max).
\<close>

definition get_ll_bounds ::
  "env \<Rightarrow> 'a weather_model_scheme \<Rightarrow> real list option \<Rightarrow> real list option \<Rightarrow> real
     \<Rightarrow> py_error + (real \<times> real \<times> real \<times> real) \<times> 'a weather_model_scheme" where
  "get_ll_bounds ev self lats lons Nextra =
     (if lats = None \<and> wm_lats self = None
      then bindE (bbox ev self)
             (\<lambda>(b, self'). case b of (lon_min, lat_min, lon_max, lat_max) \<Rightarrow>
                Inr ((lat_min, lat_max, lon_min, lon_max), self'))
      else
        let lats' = (if lats = None then map_option flatten3 (wm_lats self) else lats);
            lons' = (if lats = None then map_option flatten3 (wm_lons self) else lons)
        in bindE (nanmin lats') (\<lambda>lat_lo.
           case wm_lat_res self of
             None \<Rightarrow> Inl TypeError
           | Some lat_res \<Rightarrow>
           bindE (nanmax lats') (\<lambda>lat_hi.
           bindE (nanmin lons') (\<lambda>lon_lo.
           case wm_lon_res self of
             None \<Rightarrow> Inl TypeError
           | Some lon_res \<Rightarrow>
           bindE (nanmax lons') (\<lambda>lon_hi.
             Inr ((lat_lo - Nextra * lat_res, lat_hi + Nextra * lat_res,
                   lon_lo - Nextra * lon_res, lon_hi + Nextra * lon_res), self))))))"

text \<open>
  \<^verbatim>\<open>out_file(self, outLoc, lats, lons)\<close>: coordinates not given default to the grid's
  own; \<^verbatim>\<open>self._time.strftime\<close> raises \<^verbatim>\<open>AttributeError\<close> while the time is \<^verbatim>\<open>None\<close>.
\<close>

definition out_file ::
  "env \<Rightarrow> 'a weather_model_scheme \<Rightarrow> string \<Rightarrow> real list option \<Rightarrow> real list option
     \<Rightarrow> py_error + string \<times> 'a weather_model_scheme" where
  "out_file ev self outLoc lats lons =
     (let lats' = (if lats = None then map_option flatten3 (wm_lats self) else lats);
          lons' = (if lons = None then map_option flatten3 (wm_lons self) else lons)
      in bindE (get_ll_bounds ev self lats' lons' 2) (\<lambda>(bounds, self').
           case wm_time self' of
             None \<Rightarrow> Inl AttributeError
           | Some t \<Rightarrow>
               Inr (os_path_join outLoc
                      (make_weather_model_filename (wm_Name self') (strftime ev t) bounds),
                    self')))"

subsection \<open>Vapour pressure and refractivity\<close>

text \<open>
  Elementwise arithmetic on two three-dimensional arrays. The model does not follow
  arrays of different shapes, which numpy would reject or broadcast.
\<close>

definition zip3_with :: "(real \<Rightarrow> real \<Rightarrow> real) \<Rightarrow> array3 \<Rightarrow> array3 \<Rightarrow> py_error + array3" where
  "zip3_with f a b =
     (if map (map length) a = map (map length) b
      then Inr (map2 (map2 (map2 f)) a b)
      else Inl OutsideModel)"

definition any3 :: "(real \<Rightarrow> bool) \<Rightarrow> array3 \<Rightarrow> bool" where
  "any3 P a = list_ex (list_ex (list_ex P)) a"

text \<open>
  \<^verbatim>\<open>_find_e_from_q\<close>: with \<open>w = q / (1 - q)\<close>, the vapour pressure is
  \<open>w * R_v * (p - svp) / R_d\<close>. An operand that is \<^verbatim>\<open>None\<close> raises \<^verbatim>\<open>TypeError\<close>.
\<close>

definition find_e_from_q :: "'a weather_model_scheme \<Rightarrow> py_error + 'a weather_model_scheme" where
  "find_e_from_q self =
     (case wm_t self of
        None \<Rightarrow> Inl TypeError
      | Some t \<Rightarrow>
          let svp = map (map find_svp) t
          in (case wm_q self of
                None \<Rightarrow> Inl TypeError
              | Some q \<Rightarrow>
                  if any3 (\<lambda>x. 1 - x = 0) q then Inl OutsideModel
                  else
                    let w = map (map (map (\<lambda>x. x / (1 - x)))) q
                    in (case wm_p self of
                          None \<Rightarrow> Inl TypeError
                        | Some p \<Rightarrow>
                            bindE (zip3_with (\<lambda>a b. a - b) p svp) (\<lambda>d.
                            bindE (zip3_with (\<lambda>a b. a * wm_R_v self * b) w d) (\<lambda>n.
                              if wm_R_d self = 0 then Inl OutsideModel
                              else Inr (self\<lparr>wm_e :=
                                     Some (map (map (map (\<lambda>x. x / wm_R_d self))) n)\<rparr>))))))"

text \<open>\<^verbatim>\<open>_find_e_from_rh\<close>: the vapour pressure is \<open>rh / 100 * svp\<close>.\<close>

definition find_e_from_rh :: "'a weather_model_scheme \<Rightarrow> py_error + 'a weather_model_scheme" where
  "find_e_from_rh self =
     (case wm_t self of
        None \<Rightarrow> Inl TypeError
      | Some t \<Rightarrow>
          let svp = map (map find_svp) t
          in (case wm_rh self of
                None \<Rightarrow> Inl TypeError
              | Some rh \<Rightarrow>
                  bindE (zip3_with (\<lambda>a b. a / 100 * b) rh svp) (\<lambda>e.
                    Inr (self\<lparr>wm_e := Some e\<rparr>))))"

text \<open>\<^verbatim>\<open>_find_e\<close>: by humidity type; afterwards the humidity arrays are dropped.\<close>

definition find_e :: "'a weather_model_scheme \<Rightarrow> py_error + 'a weather_model_scheme" where
  "find_e self =
     bindE (if wm_humidityType self = ''rh'' then find_e_from_rh self
            else if wm_humidityType self = ''q'' then find_e_from_q self
            else Inl RuntimeError)
       (\<lambda>self'. Inr (self'\<lparr>wm_rh := None, wm_q := None\<rparr>))"

text \<open>
  \<^verbatim>\<open>_get_wet_refractivity\<close>, \<open>k2 * e / t + k3 * e / t\<^sup>2\<close>, and
  \<^verbatim>\<open>_get_hydro_refractivity\<close>, \<open>k1 * p / t\<close>.
\<close>

definition get_wet_refractivity ::
  "'a weather_model_scheme \<Rightarrow> py_error + 'a weather_model_scheme" where
  "get_wet_refractivity self =
     (case (wm_k2 self, wm_e self, wm_t self, wm_k3 self) of
        (Some k2, Some e, Some t, Some k3) \<Rightarrow>
          if any3 (\<lambda>x. x = 0) t then Inl OutsideModel
          else bindE (zip3_with (\<lambda>a b. k2 * a / b + k3 * a / b\<^sup>2) e t) (\<lambda>n.
                 Inr (self\<lparr>wm_wet_refractivity := Some n\<rparr>))
      | _ \<Rightarrow> Inl TypeError)"

definition get_hydro_refractivity ::
  "'a weather_model_scheme \<Rightarrow> py_error + 'a weather_model_scheme" where
  "get_hydro_refractivity self =
     (case (wm_k1 self, wm_p self, wm_t self) of
        (Some k1, Some p, Some t) \<Rightarrow>
          if any3 (\<lambda>x. x = 0) t then Inl OutsideModel
          else bindE (zip3_with (\<lambda>a b. k1 * a / b) p t) (\<lambda>n.
                 Inr (self\<lparr>wm_hydrostatic_refractivity := Some n\<rparr>))
      | _ \<Rightarrow> Inl TypeError)"

subsection \<open>Preparing the grid (\<^verbatim>\<open>load\<close>)\<close>

text \<open>
  The methods \<^verbatim>\<open>load\<close> calls whose bodies are calls into code that is not among the
  sources, on arrays that may hold NaN: \<^verbatim>\<open>load_weather\<close>, abstract in the class and
  reading the raw weather files; \<^verbatim>\<open>_uniform_in_z\<close>, a sequence of
  \<^verbatim>\<open>interpolate_along_axis\<close>; \<^verbatim>\<open>_checkForNans\<close>, a sequence of \<^verbatim>\<open>fillna3D\<close>; and
  \<^verbatim>\<open>_adjust_grid\<close>, built on \<^verbatim>\<open>util.padLower\<close>. They are parameters of the model, each
  from the object to the object it leaves or the exception it raises. None of them
  writes a file; \<^verbatim>\<open>load_weather\<close> reads the files on disk.
\<close>

record 'a stages =
  load_weather ::
    "string list \<Rightarrow> string set \<Rightarrow> 'a weather_model_scheme \<Rightarrow> py_error + 'a weather_model_scheme"
  uniform_in_z ::
    "real list option \<Rightarrow> 'a weather_model_scheme \<Rightarrow> py_error + 'a weather_model_scheme"
  checkForNans :: "'a weather_model_scheme \<Rightarrow> py_error + 'a weather_model_scheme"
  adjust_grid ::
    "real list option \<Rightarrow> real list option \<Rightarrow> 'a weather_model_scheme
       \<Rightarrow> py_error + 'a weather_model_scheme"

text \<open>
  \<^verbatim>\<open>load(self, outLoc, *args, outLats, outLons, _zlevels, zref)\<close> with the files on
  disk, \<open>fs\<close>. The result is the value returned (the path of the prepared grid, or
  \<^verbatim>\<open>None\<close>), the object and the files on disk after the call. \<^verbatim>\<open>os.path.exists\<close> is the
  only access of \<^verbatim>\<open>load\<close> itself to the disk.
\<close>

definition load ::
  "env \<Rightarrow> 'a stages \<Rightarrow> string \<Rightarrow> string list \<Rightarrow> real list option \<Rightarrow> real list option
     \<Rightarrow> real list option \<Rightarrow> real \<Rightarrow> string set \<Rightarrow> 'a weather_model_scheme
     \<Rightarrow> py_error + string option \<times> 'a weather_model_scheme \<times> string set" where
  "load ev st outLoc args outLats outLons zlevels zref_arg fs self =
     bindE (out_file ev self outLoc outLats outLons) (\<lambda>(name, self).
       let self = self\<lparr>wm_out_name := Some name\<rparr>
       in if name \<in> fs then Inr (Some name, self, fs)
          else
            bindE (get_ll_bounds ev self outLats outLons 2) (\<lambda>(bounds, self).
            bindE (load_weather st args fs (self\<lparr>wm_ll_bounds := Some bounds\<rparr>)) (\<lambda>self.
            bindE (find_e self) (\<lambda>self.
            bindE (uniform_in_z st zlevels self) (\<lambda>self.
            bindE (checkForNans st self) (\<lambda>self.
            bindE (get_wet_refractivity self) (\<lambda>self.
            bindE (get_hydro_refractivity self) (\<lambda>self.
            bindE (adjust_grid st outLats outLons self) (\<lambda>self.
            bindE (getZTD (Some zref_arg) self) (\<lambda>self.
              Inr (None, self, fs)))))))))))"

text \<open>
  The specification's pipeline: the stages in the order it names them (humidity to
  vapour pressure, uniform regridding in z, NaN fill, refractivity, grid adjustment and
  extent trim, zenith integration), run one after the other until one raises.
\<close>

fun run_stages :: "('s \<Rightarrow> py_error + 's) list \<Rightarrow> 's \<Rightarrow> py_error + 's" where
  "run_stages [] s = Inr s"
| "run_stages (f # fs) s = (case f s of Inl e \<Rightarrow> Inl e | Inr s' \<Rightarrow> run_stages fs s')"

definition pipeline_spec ::
  "'a stages \<Rightarrow> real list option \<Rightarrow> real list option \<Rightarrow> real list option \<Rightarrow> real
     \<Rightarrow> ('a weather_model_scheme \<Rightarrow> py_error + 'a weather_model_scheme) list" where
  "pipeline_spec st outLats outLons zlevels zref_arg =
     [find_e,
      uniform_in_z st zlevels,
      checkForNans st,
      get_wet_refractivity,
      get_hydro_refractivity,
      adjust_grid st outLats outLons,
      getZTD (Some zref_arg)]"

text \<open>
  An environment and a subclass for evaluating \<^verbatim>\<open>load\<close> on concrete inputs: the weather
  has been read already and is on a uniform grid without NaN, so the four parameter
  methods leave the object as it is.
\<close>

definition sample_env :: env where
  "sample_env = \<lparr>strftime = (\<lambda>t. ''1970_01_01_T'' @ show_nat (nat t)),
                  raster_bounds = (\<lambda>path. (19, 9, 21, 11))\<rparr>"

definition sample_stages :: "unit stages" where
  "sample_stages =
     \<lparr>load_weather = (\<lambda>args fs self. Inr self),
      uniform_in_z = (\<lambda>zlevels self. Inr self),
      checkForNans = (\<lambda>self. Inr self),
      adjust_grid = (\<lambda>lats lons self. Inr self)\<rparr>"

text \<open>
  A prepared grid of one horizontal node and three levels, and a model with a closed
  valid range, for evaluating the methods on concrete inputs.
\<close>

definition sample_model :: weather_model where
  "sample_model =
     \<lparr>wm_Name = ''ERA5'',
      wm_valid_range = [DateTime 0, DateTime 1000000],
      wm_lag_time = 100,
      wm_time = Some 5000,
      wm_lat_res = Some (1 / 4),
      wm_lon_res = Some (1 / 4),
      wm_k1 = Some 0.776,
      wm_k2 = Some 0.233,
      wm_k3 = Some 3750,
      wm_humidityType = ''q'',
      wm_R_v = 461.524,
      wm_R_d = 287.06,
      wm_zmin = - 100,
      wm_zmax = 15000,
      wm_files = None,
      wm_bbox = None,
      wm_zs = [0, 100, 300],
      wm_lats = Some [[[10, 10, 10]]],
      wm_lons = Some [[[20, 20, 20]]],
      wm_ll_bounds = None,
      wm_p = Some [[[100000, 99000, 96000]]],
      wm_q = Some [[[1 / 100, 1 / 100, 1 / 200]]],
      wm_rh = None,
      wm_t = Some [[[290, 289, 288]]],
      wm_e = None,
      wm_wet_refractivity = Some [[[60, 50, 30]]],
      wm_hydrostatic_refractivity = Some [[[270, 260, 250]]],
      wm_wet_ztd = None,
      wm_hydrostatic_ztd = None,
      wm_out_name = None\<rparr>"

section \<open>Properties of the extent predicates\<close>

text \<open>
  Claim C10. For every extent \<open>e = [lower_lat, upper_lat, left_lon, right_lon]\<close>,
  \<open>isOutside e e\<close> returns \<open>False\<close> and \<open>isInside e e\<close> returns \<open>True\<close>: an extent
  equal to the reference extent counts as inside for both predicates.
\<close>

theorem equal_extents_are_inside:
  "isOutside [lower_lat, upper_lat, left_lon, right_lon]
             [lower_lat, upper_lat, left_lon, right_lon] = Inr False \<and>
   isInside [lower_lat, upper_lat, left_lon, right_lon]
            [lower_lat, upper_lat, left_lon, right_lon] = Inr True"
  by (simp add: isOutside_def isInside_def)

theorem equal_extents_are_inside_witness:
  "isOutside [33, 34, -118, -117] [33, 34, -118, -117] = Inr False \<and>
   isInside [33, 34, -118, -117] [33, 34, -118, -117] = Inr True"
  using equal_extents_are_inside [of 33 34 "-118" "-117"] by simp

section \<open>Properties of \<^verbatim>\<open>find_svp\<close>\<close>

lemma mask_assign_length:
  "length msk = length dst \<Longrightarrow> length src = length dst \<Longrightarrow>
   length (mask_assign msk dst src) = length dst"
  by (simp add: mask_assign_def)

lemma mask_assign_nth:
  "length msk = length dst \<Longrightarrow> length src = length dst \<Longrightarrow> i < length dst \<Longrightarrow>
   mask_assign msk dst src ! i = (if msk ! i then src ! i else dst ! i)"
  by (simp add: mask_assign_def)

lemma find_svp_length: "length (find_svp t) = length t"
  by (simp add: find_svp_def Let_def mask_assign_length)

lemma find_svp_nth:
  assumes "i < length t"
  shows "find_svp t ! i = find_svp_point (t ! i)"
  using assms
  by (simp add: find_svp_def find_svp_point_def Let_def mask_assign_length mask_assign_nth)

lemma find_svp_singleton: "find_svp [T] ! 0 = find_svp_point T"
  using find_svp_nth [of 0 "[T]"] by simp

lemma find_svp_point_water:
  assumes "273.15 \<le> T"
  shows "find_svp_point T = svp_water_spec T"
proof (cases "T = 273.15")
  case True
  have "find_svp_point 273.15 = svp_water_spec 273.15"
    by (simp add: find_svp_point_def svp_water_spec_def Let_def)
  then show ?thesis unfolding True .
next
  case False
  with assms have "T > 273.15" by simp
  then show ?thesis
    by (simp add: find_svp_point_def svp_water_spec_def Let_def)
qed

lemma find_svp_point_ice:
  assumes "T \<le> 250.15"
  shows "find_svp_point T = svp_ice_spec T"
proof (cases "T = 250.15")
  case True
  have "find_svp_point 250.15 = svp_ice_spec 250.15"
    by (simp add: find_svp_point_def svp_ice_spec_def Let_def)
  then show ?thesis unfolding True .
next
  case False
  with assms have "T < 250.15" by simp
  then show ?thesis
    by (simp add: find_svp_point_def svp_ice_spec_def Let_def)
qed

lemma find_svp_point_band:
  assumes "250.15 \<le> T" and "T \<le> 273.15"
  shows "find_svp_point T =
         svp_ice_spec T + (svp_water_spec T - svp_ice_spec T) * (svp_weight_spec T)\<^sup>2"
  using assms
  by (simp add: find_svp_point_def svp_ice_spec_def svp_water_spec_def svp_weight_spec_def
      Let_def algebra_simps)

text \<open>
  One formula for all temperatures: outside the band the weight is clamped to 0 or 1.
\<close>

lemma find_svp_point_clamped:
  "find_svp_point T =
     svp_ice_spec T +
     (svp_water_spec T - svp_ice_spec T) * (min 1 (max 0 (svp_weight_spec T)))\<^sup>2"
proof -
  consider "T < 250.15" | "250.15 \<le> T \<and> T \<le> 273.15" | "273.15 < T"
    by linarith
  then show ?thesis
  proof cases
    case 1
    then have "svp_weight_spec T < 0" by (simp add: svp_weight_spec_def)
    then have "min 1 (max 0 (svp_weight_spec T)) = 0" by simp
    with 1 show ?thesis by (simp add: find_svp_point_ice)
  next
    case 2
    then have "0 \<le> svp_weight_spec T" and "svp_weight_spec T \<le> 1"
      by (simp_all add: svp_weight_spec_def)
    then have "min 1 (max 0 (svp_weight_spec T)) = svp_weight_spec T" by simp
    with 2 show ?thesis by (simp add: find_svp_point_band)
  next
    case 3
    then have "1 < svp_weight_spec T" by (simp add: svp_weight_spec_def)
    then have "min 1 (max 0 (svp_weight_spec T)) = 1" by simp
    with 3 show ?thesis by (simp add: find_svp_point_water)
  qed
qed

lemma find_svp_point_isCont:
  assumes "T \<noteq> 32.18" and "T \<noteq> - 0.71"
  shows "isCont find_svp_point T"
proof -
  have "isCont (\<lambda>T. svp_ice_spec T +
     (svp_water_spec T - svp_ice_spec T) * (min 1 (max 0 (svp_weight_spec T)))\<^sup>2) T"
    unfolding svp_ice_spec_def svp_water_spec_def svp_weight_spec_def
    using assms by (intro continuous_intros) auto
  then show ?thesis
    by (simp add: find_svp_point_clamped [abs_def])
qed

text \<open>
  Claim C4. \<^verbatim>\<open>find_svp\<close> is continuous at 250.15 K and at 273.15 K; on every
  temperature array it returns the water-phase value
  \<open>100 * 6.1121 * exp (17.502 (T - 273.15) / (240.97 + (T - 273.15)))\<close> wherever
  \<open>T \<ge> 273.15\<close>, and the ice-phase value
  \<open>100 * 6.1121 * exp (22.587 (T - 273.15) / (273.86 + (T - 273.15)))\<close> wherever
  \<open>T \<le> 250.15\<close>.
\<close>

theorem find_svp_continuous_and_pure_phases:
  "isCont (\<lambda>T. find_svp [T] ! 0) 250.15 \<and>
   isCont (\<lambda>T. find_svp [T] ! 0) 273.15 \<and>
   (\<forall>i < length t. 273.15 \<le> t ! i \<longrightarrow>
      find_svp t ! i =
        100 * 6.1121 * exp (17.502 * (t ! i - 273.15) / (240.97 + (t ! i - 273.15)))) \<and>
   (\<forall>i < length t. t ! i \<le> 250.15 \<longrightarrow>
      find_svp t ! i =
        100 * 6.1121 * exp (22.587 * (t ! i - 273.15) / (273.86 + (t ! i - 273.15))))"
proof -
  have c1: "isCont (\<lambda>T. find_svp [T] ! 0) 250.15"
    unfolding find_svp_singleton by (rule find_svp_point_isCont) simp_all
  have c2: "isCont (\<lambda>T. find_svp [T] ! 0) 273.15"
    unfolding find_svp_singleton by (rule find_svp_point_isCont) simp_all
  have w: "\<forall>i < length t. 273.15 \<le> t ! i \<longrightarrow>
      find_svp t ! i =
        100 * 6.1121 * exp (17.502 * (t ! i - 273.15) / (240.97 + (t ! i - 273.15)))"
    using find_svp_point_water by (simp add: find_svp_nth svp_water_spec_def)
  have i: "\<forall>i < length t. t ! i \<le> 250.15 \<longrightarrow>
      find_svp t ! i =
        100 * 6.1121 * exp (22.587 * (t ! i - 273.15) / (273.86 + (t ! i - 273.15)))"
    using find_svp_point_ice by (simp add: find_svp_nth svp_ice_spec_def)
  from c1 c2 w i show ?thesis by blast
qed

theorem find_svp_continuous_and_pure_phases_witness:
  "273.15 \<le> [300, 200::real] ! 0 \<and>
   find_svp [300, 200] ! 0 =
     100 * 6.1121 * exp (17.502 * (300 - 273.15) / (240.97 + (300 - 273.15))) \<and>
   [300, 200::real] ! 1 \<le> 250.15 \<and>
   find_svp [300, 200] ! 1 =
     100 * 6.1121 * exp (22.587 * (200 - 273.15) / (273.86 + (200 - 273.15)))"
  using find_svp_continuous_and_pure_phases [of "[300, 200]"] by (simp add: nth_Cons')

lemma svp_phases_differ_mid_band: "svp_water_spec 261.65 \<noteq> svp_ice_spec 261.65"
  by (simp add: svp_water_spec_def svp_ice_spec_def)

text \<open>
  Claim C5, as stated: strictly between 250.15 K and 273.15 K \<^verbatim>\<open>find_svp\<close> returns
  \<open>svpi + (svpw - svpi) * w\<close> with the weight \<open>w = (T - 250.15) / (273.15 - 250.15)\<close> to
  the first power. At the middle of the band, \<open>T = 261.65\<close> and \<open>w = 1/2\<close>, the program
  returns another value: the source blends with \<^verbatim>\<open>wgt**2\<close>.
\<close>

theorem find_svp_linear_blend_counterexample:
  "find_svp [261.65] ! 0 \<noteq>
     svp_ice_spec 261.65 +
     (svp_water_spec 261.65 - svp_ice_spec 261.65) * svp_weight_spec 261.65"
proof -
  have w: "svp_weight_spec 261.65 = 1 / 2"
    by (simp add: svp_weight_spec_def)
  have "find_svp [261.65] ! 0 =
      svp_ice_spec 261.65 +
      (svp_water_spec 261.65 - svp_ice_spec 261.65) * (svp_weight_spec 261.65)\<^sup>2"
    unfolding find_svp_singleton by (rule find_svp_point_band) simp_all
  then show ?thesis
    using svp_phases_differ_mid_band unfolding w by (simp add: power2_eq_square)
qed

text \<open>
  Claim C5, amended: for every temperature strictly between 250.15 K and 273.15 K,
  \<^verbatim>\<open>find_svp\<close> returns \<open>svpi + (svpw - svpi) * w\<^sup>2\<close>: the blend of the ice-phase
  and the water-phase formula in which the weight
  \<open>w = (T - 250.15) / (273.15 - 250.15)\<close> enters squared.
\<close>

theorem find_svp_quadratic_blend:
  "\<forall>i < length t. 250.15 < t ! i \<and> t ! i < 273.15 \<longrightarrow>
     find_svp t ! i =
       svp_ice_spec (t ! i) +
       (svp_water_spec (t ! i) - svp_ice_spec (t ! i)) * (svp_weight_spec (t ! i))\<^sup>2"
  by (simp add: find_svp_nth find_svp_point_band)

theorem find_svp_quadratic_blend_witness:
  "250.15 < [260::real] ! 0 \<and> [260::real] ! 0 < 273.15 \<and>
   find_svp [260] ! 0 =
     svp_ice_spec 260 + (svp_water_spec 260 - svp_ice_spec 260) * (svp_weight_spec 260)\<^sup>2"
  using find_svp_quadratic_blend [of "[260]"] by simp

section \<open>Properties of the ray sampling\<close>

lemma linspace_length: "length (linspace a b n) = n"
  by (simp add: linspace_def)

lemma linspace_nth_inner:
  assumes "2 \<le> n" and "i < n - 1"
  shows "linspace a b n ! i = a + real i * ((b - a) / real (n - 1))"
  using assms by (simp add: linspace_def nth_append)

lemma linspace_nth_last:
  assumes "2 \<le> n"
  shows "linspace a b n ! (n - 1) = b"
  using assms by (simp add: linspace_def nth_append)

lemma linspace_last:
  assumes "2 \<le> n"
  shows "last (linspace a b n) = b"
  using assms by (simp add: linspace_def)

lemma linspace_hd:
  assumes "2 \<le> n"
  shows "hd (linspace a b n) = a"
proof -
  from assms have "0 < n - 1" by simp
  then have "[0..<n - 1] = 0 # [1..<n - 1]" by (simp add: upt_conv_Cons)
  with assms show ?thesis by (simp add: linspace_def)
qed

lemma linspace_spacing:
  assumes "2 \<le> n" and "Suc i < n"
  shows "linspace a b n ! Suc i - linspace a b n ! i = (b - a) / real (n - 1)"
proof (cases "Suc i = n - 1")
  case True
  then have i: "i < n - 1" and n1: "real (n - 1) = real i + 1" by simp_all
  have "linspace a b n ! Suc i = b"
    using linspace_nth_last [OF assms(1), of a b] True by simp
  moreover have "linspace a b n ! i = a + real i * ((b - a) / real (n - 1))"
    using linspace_nth_inner [OF assms(1) i] .
  ultimately show ?thesis
    unfolding n1 by (simp add: field_simps)
next
  case False
  with assms have i: "Suc i < n - 1" "i < n - 1" by simp_all
  define d where "d = (b - a) / real (n - 1)"
  have "linspace a b n ! Suc i = a + real (Suc i) * d"
    unfolding d_def by (rule linspace_nth_inner [OF assms(1) i(1)])
  moreover have "linspace a b n ! i = a + real i * d"
    unfolding d_def by (rule linspace_nth_inner [OF assms(1) i(2)])
  ultimately have "linspace a b n ! Suc i - linspace a b n ! i = d"
    by (simp add: distrib_right)
  then show ?thesis by (simp add: d_def)
qed

lemma ray_steps_ge2:
  assumes "step < L"
  shows "2 \<le> ray_steps L"
proof -
  from assms have "1 < L" by (simp add: step_def)
  then have "1 < \<lceil>L\<rceil>" by (simp add: less_ceiling_iff)
  then have "2 \<le> nat \<lceil>L\<rceil>" by linarith
  then show ?thesis by (simp add: ray_steps_def step_def)
qed

lemma ray_steps_one:
  assumes "0 < L" and "L \<le> step"
  shows "ray_steps L = 1"
proof -
  from assms have "\<lceil>L\<rceil> = 1" by (intro ceiling_unique) (simp_all add: step_def)
  then show ?thesis by (simp add: ray_steps_def step_def)
qed

lemma ray_t_points_zero: "ray_t_points 0 = []"
  by (simp add: ray_t_points_def ray_steps_def linspace_def)

lemma ray_t_points_short:
  assumes "0 < L" and "L \<le> step"
  shows "ray_t_points L = [0]"
  using ray_steps_one [OF assms] by (simp add: ray_t_points_def linspace_def)

text \<open>
  Claim C3, as stated: every ray of positive length \<open>L\<close> has \<open>ceil (L / s)\<close> samples from
  path coordinate 0 to path coordinate \<open>L\<close> exactly. A ray of length 1/2 (the look vector
  \<open>(0, 0, 1/2)\<close>, with the step of 1 m) has the single sample 0: its last sample is not
  at \<open>L\<close>.
\<close>

theorem short_ray_last_sample_counterexample:
  "0 < norm3 (0, 0, 1 / 2) \<and>
   ray_t_points (norm3 (0, 0, 1 / 2)) = [0] \<and>
   last (ray_t_points (norm3 (0, 0, 1 / 2))) \<noteq> norm3 (0, 0, 1 / 2)"
proof -
  have n: "norm3 (0, 0, 1 / 2) = 1 / 2"
    by (simp add: norm3_def real_sqrt_divide)
  have "ray_t_points (1 / 2) = [0]"
    by (rule ray_t_points_short) (simp_all add: step_def)
  then show ?thesis unfolding n by simp
qed

text \<open>
  Claim C3, amended: for every ray whose path length \<open>L\<close> exceeds the step \<open>s\<close> (1 m),
  the number of samples is \<open>ceil (L / s)\<close>, the first sample is at path coordinate 0,
  consecutive samples are evenly spaced, and the last sample is at \<open>L\<close> exactly. A ray
  with \<open>0 < L \<le> s\<close> has \<open>ceil (L / s) = 1\<close> sample, at path coordinate 0.
\<close>

theorem ray_samples_span_path:
  "(step < L \<longrightarrow>
      length (ray_t_points L) = nat \<lceil>L / step\<rceil> \<and>
      hd (ray_t_points L) = 0 \<and>
      (\<forall>i. Suc i < length (ray_t_points L) \<longrightarrow>
         ray_t_points L ! Suc i - ray_t_points L ! i =
           L / real (length (ray_t_points L) - 1)) \<and>
      last (ray_t_points L) = L) \<and>
   (0 < L \<and> L \<le> step \<longrightarrow> nat \<lceil>L / step\<rceil> = 1 \<and> ray_t_points L = [0])"
proof (intro conjI impI allI)
  assume "step < L"
  then have n: "2 \<le> ray_steps L" by (rule ray_steps_ge2)
  show "length (ray_t_points L) = nat \<lceil>L / step\<rceil>"
    by (simp add: ray_t_points_def linspace_length ray_steps_def)
  show "hd (ray_t_points L) = 0"
    using linspace_hd [OF n] by (simp add: ray_t_points_def)
  show "last (ray_t_points L) = L"
    using linspace_last [OF n] by (simp add: ray_t_points_def)
  fix i assume "Suc i < length (ray_t_points L)"
  then have "Suc i < ray_steps L" by (simp add: ray_t_points_def linspace_length)
  from linspace_spacing [OF n this, of 0 L]
  show "ray_t_points L ! Suc i - ray_t_points L ! i = L / real (length (ray_t_points L) - 1)"
    by (simp add: ray_t_points_def linspace_length)
next
  assume a: "0 < L \<and> L \<le> step"
  then show "nat \<lceil>L / step\<rceil> = 1"
    using ray_steps_one [of L] by (simp add: ray_steps_def)
  from a show "ray_t_points L = [0]" by (simp add: ray_t_points_short)
qed

theorem ray_samples_span_path_witness:
  "step < 5 / 2 \<and>
   length (ray_t_points (5 / 2)) = nat \<lceil>5 / 2 / step\<rceil> \<and>
   hd (ray_t_points (5 / 2)) = 0 \<and>
   Suc 0 < length (ray_t_points (5 / 2)) \<and>
   ray_t_points (5 / 2) ! Suc 0 - ray_t_points (5 / 2) ! 0 =
     5 / 2 / real (length (ray_t_points (5 / 2)) - 1) \<and>
   last (ray_t_points (5 / 2)) = 5 / 2 \<and>
   0 < (1 / 2 :: real) \<and> 1 / 2 \<le> step \<and> ray_t_points (1 / 2) = [0]"
  using ray_samples_span_path [of "5 / 2"] ray_samples_span_path [of "1 / 2"]
  by (simp add: step_def)

section \<open>Properties of \<^verbatim>\<open>_common_delay\<close>\<close>

lemma collect_Inr:
  "collect rs = Inr vs \<Longrightarrow> length vs = length rs \<and> (\<forall>i<length rs. rs ! i = Inr (vs ! i))"
proof (induction rs arbitrary: vs)
  case Nil
  then show ?case by simp
next
  case (Cons r rs)
  show ?case
  proof (cases r)
    case (Inl e)
    with Cons.prems show ?thesis by simp
  next
    case (Inr v)
    with Cons.prems obtain ws where ws: "collect rs = Inr ws" and vs: "vs = v # ws"
      by (auto split: sum.splits)
    from Cons.IH [OF ws] have "length ws = length rs" and "\<forall>i<length rs. rs ! i = Inr (ws ! i)"
      by simp_all
    with Inr vs show ?thesis by (auto simp: nth_Cons')
  qed
qed

lemma trapz_no_sample: "trapz [] [] = Inr 0"
  by (simp add: trapz_def np_diff_def)

text \<open>
  What a normal return of \<^verbatim>\<open>_common_delay\<close> says about its result: every ray's delay is
  \<open>10\<^sup>-\<^sup>6\<close> times the trapezoidal integral over its own chunk of the interpolated
  values, times the cosine correction if there is one.
\<close>

lemma common_delay_integrals:
  assumes "common_delay u delay lats lons heights look_vecs raytrace = Inr delays"
    and "look_vectors u lats lons heights look_vecs raytrace = Inr look"
  shows "\<exists>wet_delays indices vals corr.
           correction u look_vecs raytrace = Inr corr \<and>
           length look = length lats \<and>
           length vals = length look \<and>
           (\<forall>i<length look.
              trapz (take (ray_steps (norm3 (look ! i))) (drop (indices ! i) wet_delays))
                    (ray_t_points (norm3 (look ! i))) = Inr (vals ! i)) \<and>
           (case corr of
              None \<Rightarrow> delays = map (\<lambda>v. 0.000001 * v) vals
            | Some c \<Rightarrow> length c = length look \<and>
                        delays = map2 (\<lambda>d k. d * k) (map (\<lambda>v. 0.000001 * v) vals) c)"
proof -
  from assms obtain corr where corr: "correction u look_vecs raytrace = Inr corr"
    by (auto simp: common_delay_def split: sum.splits)
  define steps where "steps = map ray_steps (map norm3 look)"
  define indices where "indices = (roll1 (cumsum steps))[0 := 0]"
  define wet_delays where "wet_delays =
    delay (concat (map2 ray_positions
       (map (\<lambda>(lat, lon, h). lla2ecef u lat lon h) (zip lats (zip lons heights))) look))"
  define integrals where "integrals =
     map (\<lambda>i. trapz (take (steps ! i) (drop (indices ! i) wet_delays))
                     (map ray_t_points (map norm3 look) ! i)) [0..<length steps]"
  from assms corr have len: "length look = length lats"
    and lc: "(case corr of None \<Rightarrow> True | Some c \<Rightarrow> length c = length lats)"
    by (auto simp: common_delay_def split: sum.splits if_splits)
  from assms corr obtain vals where vals: "collect integrals = Inr vals"
    and d: "delays = (case corr of None \<Rightarrow> map (\<lambda>v. 0.000001 * v) vals
                      | Some c \<Rightarrow> map2 (\<lambda>d k. d * k) (map (\<lambda>v. 0.000001 * v) vals) c)"
    unfolding common_delay_def integrals_def wet_delays_def indices_def steps_def
    by (auto simp: Let_def split: sum.splits if_splits option.splits)
  from collect_Inr [OF vals] have lv: "length vals = length look"
    and nth: "\<forall>i<length look. integrals ! i = Inr (vals ! i)"
    by (simp_all add: integrals_def steps_def)
  have "\<forall>i<length look.
          trapz (take (ray_steps (norm3 (look ! i))) (drop (indices ! i) wet_delays))
                (ray_t_points (norm3 (look ! i))) = Inr (vals ! i)"
    using nth by (simp add: integrals_def steps_def)
  with corr len lv lc d show ?thesis
    by (cases corr) auto
qed

lemma zenith_at_reference_height:
  "look_vectors sample_util [0] [0] [15000] Zenith True = Inr [(0, 0, 0)]"
  by (simp add: look_vectors_def sample_util_def zenith_look_def)

lemma zenith_at_reference_height_delay:
  "common_delay sample_util (map (\<lambda>p. 230)) [0] [0] [15000] Zenith True = Inr [0]"
  by (simp add: common_delay_def look_vectors_def sample_util_def zenith_look_def
      correction_def norm3_def ray_steps_def cumsum_def roll1_def ray_t_points_def
      linspace_def ray_positions_def trapz_def np_diff_def)

text \<open>
  Claim C6, as stated: a ray whose look vector has length zero yields exactly one
  degenerate sample. The zenith ray of a point at the reference height has the look
  vector \<open>(0, 0, 0)\<close>, and no sample at all: \<open>ceil (0 / step) = 0\<close>.
\<close>

theorem zero_length_ray_one_sample_counterexample:
  "look_vectors sample_util [0] [0] [15000] Zenith True = Inr [(0, 0, 0)] \<and>
   norm3 (0, 0, 0) = 0 \<and>
   length (ray_t_points (norm3 (0, 0, 0))) \<noteq> 1 \<and>
   length (ray_positions (lla2ecef sample_util 0 0 15000) (0, 0, 0)) \<noteq> 1"
  by (simp add: zenith_at_reference_height norm3_def ray_positions_def ray_t_points_zero)

text \<open>
  Claim C6, amended: in \<^verbatim>\<open>_common_delay\<close>, a ray whose look vector has length zero
  (path length \<open>L = 0\<close>) yields no sample, and the integrated delay returned for that
  ray is 0.
\<close>

theorem zero_length_ray_zero_delay:
  assumes "look_vectors u lats lons heights look_vecs raytrace = Inr look"
    and "common_delay u delay lats lons heights look_vecs raytrace = Inr delays"
    and "i < length look"
    and "norm3 (look ! i) = 0"
  shows "length (ray_t_points (norm3 (look ! i))) = 0 \<and>
         length (ray_positions start (look ! i)) = 0 \<and>
         delays ! i = 0"
proof -
  from common_delay_integrals [OF assms(2) assms(1)]
  obtain wet_delays indices vals corr where
    lv: "length vals = length look" and
    tr: "\<forall>i<length look.
              trapz (take (ray_steps (norm3 (look ! i))) (drop (indices ! i) wet_delays))
                    (ray_t_points (norm3 (look ! i))) = Inr (vals ! i)" and
    d: "(case corr of
              None \<Rightarrow> delays = map (\<lambda>v. 0.000001 * v) vals
            | Some c \<Rightarrow> length c = length look \<and>
                        delays = map2 (\<lambda>d k. d * k) (map (\<lambda>v. 0.000001 * v) vals) c)"
    by blast
  from tr assms(3) assms(4)
  have "trapz (take (ray_steps 0) (drop (indices ! i) wet_delays)) (ray_t_points 0) =
        Inr (vals ! i)"
    by metis
  then have v0: "vals ! i = 0"
    by (simp add: ray_t_points_zero ray_steps_def trapz_no_sample)
  have "delays ! i = 0"
  proof (cases corr)
    case None
    with d lv assms(3) v0 show ?thesis by simp
  next
    case (Some c)
    with d lv assms(3) v0 show ?thesis by simp
  qed
  then show ?thesis
    by (simp add: assms(4) ray_t_points_zero ray_positions_def)
qed

theorem zero_length_ray_zero_delay_witness:
  "look_vectors sample_util [0] [0] [15000] Zenith True = Inr [(0, 0, 0)] \<and>
   common_delay sample_util (map (\<lambda>p. 230)) [0] [0] [15000] Zenith True = Inr [0] \<and>
   (0::nat) < length [(0, 0, 0) :: vec3] \<and>
   norm3 ([(0, 0, 0)] ! 0) = 0 \<and>
   length (ray_t_points (norm3 ([(0, 0, 0)] ! 0))) = 0 \<and>
   length (ray_positions (lla2ecef sample_util 0 0 15000) ([(0, 0, 0)] ! 0)) = 0 \<and>
   [0 :: real] ! 0 = 0"
  using zero_length_ray_zero_delay
    [OF zenith_at_reference_height zenith_at_reference_height_delay, of 0
      "lla2ecef sample_util 0 0 15000"]
  by (simp add: zenith_at_reference_height zenith_at_reference_height_delay norm3_def)

lemma rescale_look_third:
  assumes "third v \<noteq> 0" and "zr \<noteq> 0"
  shows "third (rescale_look zr v) = zr"
  using assms by (cases v) (simp add: rescale_look_def div3_def third_def)

lemma rescale_look_direction:
  "rescale_look zr v = scale3 (zr / third v) v"
  by (cases v) (simp add: rescale_look_def div3_def third_def scale3_def)

text \<open>
  Claim C2: for an explicit look vector with ray tracing, the rescaled vector's third
  component is the reference height minus the point height. The program divides by the
  third component over \<^verbatim>\<open>_zref\<close> and never reads the height: for the look vector
  \<open>(1, 2, 4)\<close> of a point at height 100 m, with the reference height 15000 m, the
  rescaled vector is \<open>(3750, 7500, 15000)\<close>, whose third component is 15000 and not
  14900. The zenith vector of the same point has the length \<open>15000 - 100\<close>.
\<close>

theorem explicit_look_vector_ignores_height:
  "look_vectors sample_util [0] [0] [100] (Vectors [(1, 2, 4)]) True =
     Inr [(3750, 7500, 15000)] \<and>
   look_vectors sample_util [0] [0] [100] Zenith True = Inr [(14900, 0, 0)]"
  by (simp add: look_vectors_def sample_util_def rescale_look_def div3_def third_def
      zenith_look_def)

section \<open>Properties of \<^verbatim>\<open>_getZTD\<close>\<close>

lemma np_diff_length: "length (np_diff x) = length x - 1"
  by (simp add: np_diff_def)

lemma trapz_same_length:
  assumes "length y = length x"
  shows "trapz y x =
         Inr (\<Sum>m = 0..<length x - 1. (x ! (m + 1) - x ! m) * (y ! m + y ! (m + 1)) / 2)"
proof -
  let ?d = "np_diff x" and ?s = "map2 (\<lambda>a b. a + b) (tl y) (butlast y)"
  have ld: "length ?d = length x - 1" and ls: "length ?s = length x - 1"
    using assms by (simp_all add: np_diff_def)
  have "sum_list (map2 (\<lambda>di si. di * si / 2) ?d ?s) =
        (\<Sum>m = 0..<length x - 1. map2 (\<lambda>di si. di * si / 2) ?d ?s ! m)"
    using ld ls by (simp add: sum_list_sum_nth)
  also have "\<dots> = (\<Sum>m = 0..<length x - 1. (x ! (m + 1) - x ! m) * (y ! m + y ! (m + 1)) / 2)"
  proof (rule sum.cong [OF refl])
    fix m assume "m \<in> {0..<length x - 1}"
    then have m: "m < length x - 1" by simp
    then have "tl x ! m = x ! (m + 1)" "butlast x ! m = x ! m"
      "tl y ! m = y ! (m + 1)" "butlast y ! m = y ! m"
      using assms by (simp_all add: nth_tl nth_butlast)
    with m assms show "map2 (\<lambda>di si. di * si / 2) ?d ?s ! m =
          (x ! (m + 1) - x ! m) * (y ! m + y ! (m + 1)) / 2"
      by (simp add: np_diff_def add.commute)
  qed
  finally show ?thesis
    using ld ls by (simp add: trapz_def Let_def)
qed

lemma trapz_upward:
  assumes "length col = length zs"
  shows "trapz (drop k col) (drop k zs) = Inr (trapezoid_upward_spec zs col k)"
proof (cases "k < length zs")
  case True
  have "trapz (drop k col) (drop k zs) =
        Inr (\<Sum>m = 0..<length zs - k - 1.
               (drop k zs ! (m + 1) - drop k zs ! m) * (drop k col ! m + drop k col ! (m + 1)) / 2)"
    using trapz_same_length [of "drop k col" "drop k zs"] assms by simp
  also have "(\<Sum>m = 0..<length zs - k - 1.
               (drop k zs ! (m + 1) - drop k zs ! m) * (drop k col ! m + drop k col ! (m + 1)) / 2) =
             (\<Sum>m = 0..<length zs - k - 1.
               (zs ! (m + k + 1) - zs ! (m + k)) * (col ! (m + k) + col ! (m + k + 1)) / 2)"
    using assms by (intro sum.cong [OF refl]) (simp add: add.commute add.left_commute)
  also have "\<dots> = (\<Sum>m = 0 + k..<(length zs - k - 1) + k.
               (zs ! (m + 1) - zs ! m) * (col ! m + col ! (m + 1)) / 2)"
    by (simp only: sum.shift_bounds_nat_ivl add.assoc)
  also have "\<dots> = trapezoid_upward_spec zs col k"
    using True by (simp add: trapezoid_upward_spec_def)
  finally show ?thesis .
next
  case False
  then show ?thesis
    using assms by (simp add: trapz_def np_diff_def trapezoid_upward_spec_def)
qed

lemma collect_map_Inr:
  assumes "\<forall>x\<in>set xs. f x = Inr (g x)"
  shows "collect (map f xs) = Inr (map g xs)"
  using assms by (induction xs) simp_all

lemma has_shape_nth:
  assumes "has_shape a ny nx nz"
  shows "length a = ny" and "\<forall>row\<in>set a. length row = nx \<and> (\<forall>col\<in>set row. length col = nz)"
  using assms by (auto simp: has_shape_def list_all_iff)

lemma trapz_axis2_upward:
  assumes "has_shape a ny nx nz" and "length zs = nz"
  shows "trapz_axis2 (drop_axis2 k a) (drop k zs) =
         Inr (map (map (\<lambda>col. trapezoid_upward_spec zs col k)) a)"
proof -
  have "\<forall>row\<in>set a. collect (map (\<lambda>col. trapz (drop k col) (drop k zs)) row) =
                      Inr (map (\<lambda>col. trapezoid_upward_spec zs col k) row)"
  proof
    fix row assume "row \<in> set a"
    with has_shape_nth(2) [OF assms(1)] assms(2) have "\<forall>col\<in>set row. length col = length zs"
      by simp
    then show "collect (map (\<lambda>col. trapz (drop k col) (drop k zs)) row) =
               Inr (map (\<lambda>col. trapezoid_upward_spec zs col k) row)"
      by (intro collect_map_Inr) (simp add: trapz_upward)
  qed
  then have "collect (map (\<lambda>row. collect (map (\<lambda>col. trapz (drop k col) (drop k zs)) row)) a) =
             Inr (map (map (\<lambda>col. trapezoid_upward_spec zs col k)) a)"
    by (rule collect_map_Inr)
  then show ?thesis
    by (simp add: trapz_axis2_def drop_axis2_def comp_def)
qed

lemma set_level_shaped:
  assumes t: "has_shape tot ny nx nz" and a: "has_shape a ny nx nz'" and k: "k < nz"
  shows "\<exists>tot'. set_level tot k (map (map g) a) = Inr tot' \<and> has_shape tot' ny nx nz \<and>
           (\<forall>i<ny. \<forall>j<nx. \<forall>l<nz.
              tot' ! i ! j ! l = (if l = k then g (a ! i ! j) else tot ! i ! j ! l))"
proof -
  let ?tot' = "map2 (map2 (\<lambda>col v. col[k := v])) tot (map (map g) a)"
  have lt: "length tot = ny" and la: "length a = ny"
    using has_shape_nth(1) [OF t] has_shape_nth(1) [OF a] by simp_all
  have rt: "\<And>i. i < ny \<Longrightarrow> length (tot ! i) = nx \<and> (\<forall>j<nx. length (tot ! i ! j) = nz)"
    using has_shape_nth(2) [OF t] lt by (metis nth_mem)
  have ra: "\<And>i. i < ny \<Longrightarrow> length (a ! i) = nx"
    using has_shape_nth(2) [OF a] la by (metis nth_mem)
  have no_ix: "\<not> list_ex (\<lambda>row. list_ex (\<lambda>col. length col \<le> k) row) tot"
    using has_shape_nth(2) [OF t] k by (auto simp: list_ex_iff)
  have lens: "map length tot = map length (map (map g) a)"
    using lt la rt ra by (intro nth_equalityI) simp_all
  have res: "set_level tot k (map (map g) a) = Inr ?tot'"
    using no_ix lens by (simp add: set_level_def)
  have el: "\<forall>i<ny. length (?tot' ! i) = nx \<and>
               (\<forall>j<nx. length (?tot' ! i ! j) = nz \<and>
                  (\<forall>l<nz. ?tot' ! i ! j ! l = (if l = k then g (a ! i ! j) else tot ! i ! j ! l)))"
    using lt la rt ra by (auto simp: nth_list_update)
  have len: "length ?tot' = ny" using lt la by simp
  have "has_shape ?tot' ny nx nz"
    unfolding has_shape_def list_all_length using len el by (metis)
  with res el show ?thesis by blast
qed

lemma ztd_loop_result:
  assumes "has_shape wet ny nx nz" and "has_shape hydro ny nx nz" and "length zs = nz"
    and "\<forall>l\<in>set ls. l < nz"
    and "has_shape wt ny nx nz" and "has_shape ht ny nx nz"
  shows "\<exists>wt' ht'. ztd_loop zs wet hydro ls (wt, ht) = Inr (wt', ht') \<and>
           has_shape wt' ny nx nz \<and> has_shape ht' ny nx nz \<and>
           (\<forall>i<ny. \<forall>j<nx. \<forall>l<nz.
              wt' ! i ! j ! l =
                (if l \<in> set ls then 0.000001 * trapezoid_upward_spec zs (wet ! i ! j) l
                 else wt ! i ! j ! l) \<and>
              ht' ! i ! j ! l =
                (if l \<in> set ls then 0.000001 * trapezoid_upward_spec zs (hydro ! i ! j) l
                 else ht ! i ! j ! l))"
  using assms(4-6)
proof (induction ls arbitrary: wt ht)
  case Nil
  then show ?case by simp
next
  case (Cons k ls)
  from Cons.prems have k: "k < nz" and ls: "\<forall>l\<in>set ls. l < nz" by simp_all
  let ?gw = "\<lambda>col. 0.000001 * trapezoid_upward_spec zs col k"
  have pw: "trapz_axis2 (drop_axis2 k wet) (drop k zs) =
            Inr (map (map (\<lambda>col. trapezoid_upward_spec zs col k)) wet)"
    by (rule trapz_axis2_upward [OF assms(1) assms(3)])
  have ph: "trapz_axis2 (drop_axis2 k hydro) (drop k zs) =
            Inr (map (map (\<lambda>col. trapezoid_upward_spec zs col k)) hydro)"
    by (rule trapz_axis2_upward [OF assms(2) assms(3)])
  from set_level_shaped [OF Cons.prems(2) assms(1) k, of ?gw]
  obtain wt1 where w1: "set_level wt k (map (map ?gw) wet) = Inr wt1"
    and sw1: "has_shape wt1 ny nx nz"
    and ew1: "\<forall>i<ny. \<forall>j<nx. \<forall>l<nz.
                wt1 ! i ! j ! l = (if l = k then ?gw (wet ! i ! j) else wt ! i ! j ! l)"
    by blast
  from set_level_shaped [OF Cons.prems(3) assms(2) k, of ?gw]
  obtain ht1 where h1: "set_level ht k (map (map ?gw) hydro) = Inr ht1"
    and sh1: "has_shape ht1 ny nx nz"
    and eh1: "\<forall>i<ny. \<forall>j<nx. \<forall>l<nz.
                ht1 ! i ! j ! l = (if l = k then ?gw (hydro ! i ! j) else ht ! i ! j ! l)"
    by blast
  have step: "ztd_loop zs wet hydro (k # ls) (wt, ht) = ztd_loop zs wet hydro ls (wt1, ht1)"
    using pw ph w1 h1 by (simp add: comp_def)
  from Cons.IH [OF ls sw1 sh1]
  obtain wt' ht' where r: "ztd_loop zs wet hydro ls (wt1, ht1) = Inr (wt', ht')"
    and s: "has_shape wt' ny nx nz" "has_shape ht' ny nx nz"
    and e: "\<forall>i<ny. \<forall>j<nx. \<forall>l<nz.
              wt' ! i ! j ! l =
                (if l \<in> set ls then 0.000001 * trapezoid_upward_spec zs (wet ! i ! j) l
                 else wt1 ! i ! j ! l) \<and>
              ht' ! i ! j ! l =
                (if l \<in> set ls then 0.000001 * trapezoid_upward_spec zs (hydro ! i ! j) l
                 else ht1 ! i ! j ! l)"
    by blast
  have el: "\<forall>i<ny. \<forall>j<nx. \<forall>l<nz.
              wt' ! i ! j ! l =
                (if l \<in> set (k # ls) then 0.000001 * trapezoid_upward_spec zs (wet ! i ! j) l
                 else wt ! i ! j ! l) \<and>
              ht' ! i ! j ! l =
                (if l \<in> set (k # ls) then 0.000001 * trapezoid_upward_spec zs (hydro ! i ! j) l
                 else ht ! i ! j ! l)"
    using e ew1 eh1 by simp
  show ?case
  proof (intro exI conjI)
    show "ztd_loop zs wet hydro (k # ls) (wt, ht) = Inr (wt', ht')"
      using step r by simp
    show "has_shape wt' ny nx nz" and "has_shape ht' ny nx nz" by fact+
    show "\<forall>i<ny. \<forall>j<nx. \<forall>l<nz.
              wt' ! i ! j ! l =
                (if l \<in> set (k # ls) then 0.000001 * trapezoid_upward_spec zs (wet ! i ! j) l
                 else wt ! i ! j ! l) \<and>
              ht' ! i ! j ! l =
                (if l \<in> set (k # ls) then 0.000001 * trapezoid_upward_spec zs (hydro ! i ! j) l
                 else ht ! i ! j ! l)"
      by (rule el)
  qed
qed

lemma zeros3_shape: "has_shape (zeros3 (ny, nx, nz)) ny nx nz"
  by (simp add: zeros3_def has_shape_def list_all_length)

lemma shape3_shaped:
  assumes "has_shape a ny nx nz" and "0 < ny" and "0 < nx"
  shows "shape3 a = (ny, nx, nz)"
proof -
  from assms obtain row rest where a: "a = row # rest"
    by (cases a) (auto simp: has_shape_def)
  with assms obtain col cols where row: "row = col # cols"
    by (cases row) (auto simp: has_shape_def)
  from assms a row show ?thesis
    by (simp add: shape3_def has_shape_def)
qed

lemma getZTD_result:
  assumes "wm_lats self = Some lats"
    and "wm_wet_refractivity self = Some wet"
    and "wm_hydrostatic_refractivity self = Some hydro"
    and "has_shape wet ny nx nz" and "has_shape hydro ny nx nz"
    and "length (wm_zs self) = nz"
  shows "\<exists>wet_ztd hydrostatic_ztd.
           getZTD zref_arg self =
             Inr (self\<lparr>wm_hydrostatic_ztd := Some hydrostatic_ztd, wm_wet_ztd := Some wet_ztd\<rparr>) \<and>
           (\<forall>i<ny. \<forall>j<nx. \<forall>k<nz.
              wet_ztd ! i ! j ! k =
                0.000001 * trapezoid_upward_spec (wm_zs self) (wet ! i ! j) k \<and>
              hydrostatic_ztd ! i ! j ! k =
                0.000001 * trapezoid_upward_spec (wm_zs self) (hydro ! i ! j) k)"
proof (cases "0 < ny \<and> 0 < nx")
  case True
  then have sw: "shape3 wet = (ny, nx, nz)" and sh: "shape3 hydro = (ny, nx, nz)"
    using shape3_shaped assms(4,5) by simp_all
  have lv: "\<forall>l\<in>set [0..<nz]. l < nz" by simp
  from ztd_loop_result [OF assms(4) assms(5) assms(6) lv zeros3_shape zeros3_shape]
  obtain wt' ht' where
    r: "ztd_loop (wm_zs self) wet hydro [0..<nz] (zeros3 (ny, nx, nz), zeros3 (ny, nx, nz)) =
          Inr (wt', ht')"
    and e: "\<forall>i<ny. \<forall>j<nx. \<forall>l<nz.
              wt' ! i ! j ! l =
                (if l \<in> set [0..<nz] then 0.000001 * trapezoid_upward_spec (wm_zs self) (wet ! i ! j) l
                 else zeros3 (ny, nx, nz) ! i ! j ! l) \<and>
              ht' ! i ! j ! l =
                (if l \<in> set [0..<nz] then 0.000001 * trapezoid_upward_spec (wm_zs self) (hydro ! i ! j) l
                 else zeros3 (ny, nx, nz) ! i ! j ! l)"
    by blast
  have g: "getZTD zref_arg self =
        Inr (self\<lparr>wm_hydrostatic_ztd := Some ht', wm_wet_ztd := Some wt'\<rparr>)"
    using assms(1-3) sw sh r by (simp add: getZTD_def)
  from e have el: "\<forall>i<ny. \<forall>j<nx. \<forall>k<nz.
              wt' ! i ! j ! k = 0.000001 * trapezoid_upward_spec (wm_zs self) (wet ! i ! j) k \<and>
              ht' ! i ! j ! k = 0.000001 * trapezoid_upward_spec (wm_zs self) (hydro ! i ! j) k"
    by simp
  show ?thesis
    by (intro exI conjI) (rule g, rule el)
next
  case False
  then have z: "ny = 0 \<or> nx = 0" by auto
  have "snd (snd (shape3 wet)) = 0"
    using z assms(4) by (cases wet; cases "hd wet") (auto simp: shape3_def has_shape_def)
  then have "getZTD zref_arg self =
        Inr (self\<lparr>wm_hydrostatic_ztd := Some (zeros3 (shape3 hydro)),
                  wm_wet_ztd := Some (zeros3 (shape3 wet))\<rparr>)"
    using assms(1-3) by (simp add: getZTD_def)
  with z show ?thesis by auto
qed

lemma getZTD_ignores_zref: "getZTD zref_arg self = getZTD None self"
  by (simp add: getZTD_def)

text \<open>
  Claim C7. For every horizontal node \<open>(i, j)\<close> and every stored level \<open>k\<close>, \<^verbatim>\<open>_getZTD\<close>
  sets \<open>wet_ztd[i, j, k]\<close> and \<open>hydrostatic_ztd[i, j, k]\<close> to \<open>10\<^sup>-\<^sup>6\<close> times the
  trapezoidal integral of the wet, respectively hydrostatic, refractivity profile of
  the column over the stored z levels from level \<open>k\<close> up to the last stored level.
  The top is the top of the stored column: the result is the same for every reference
  height passed to the method.
\<close>

theorem getZTD_integrates_upward:
  assumes "wm_lats self = Some lats"
    and "wm_wet_refractivity self = Some wet"
    and "wm_hydrostatic_refractivity self = Some hydro"
    and "has_shape wet ny nx nz" and "has_shape hydro ny nx nz"
    and "length (wm_zs self) = nz"
  shows "\<exists>wet_ztd hydrostatic_ztd.
           (\<forall>zref_arg. getZTD zref_arg self =
              Inr (self\<lparr>wm_hydrostatic_ztd := Some hydrostatic_ztd,
                        wm_wet_ztd := Some wet_ztd\<rparr>)) \<and>
           (\<forall>i<ny. \<forall>j<nx. \<forall>k<nz.
              wet_ztd ! i ! j ! k =
                0.000001 * trapezoid_upward_spec (wm_zs self) (wet ! i ! j) k \<and>
              hydrostatic_ztd ! i ! j ! k =
                0.000001 * trapezoid_upward_spec (wm_zs self) (hydro ! i ! j) k)"
proof -
  from getZTD_result [OF assms, of None] obtain wet_ztd hydrostatic_ztd where
    g: "getZTD None self =
          Inr (self\<lparr>wm_hydrostatic_ztd := Some hydrostatic_ztd, wm_wet_ztd := Some wet_ztd\<rparr>)"
    and e: "\<forall>i<ny. \<forall>j<nx. \<forall>k<nz.
              wet_ztd ! i ! j ! k =
                0.000001 * trapezoid_upward_spec (wm_zs self) (wet ! i ! j) k \<and>
              hydrostatic_ztd ! i ! j ! k =
                0.000001 * trapezoid_upward_spec (wm_zs self) (hydro ! i ! j) k"
    by blast
  have "\<forall>zref_arg. getZTD zref_arg self =
          Inr (self\<lparr>wm_hydrostatic_ztd := Some hydrostatic_ztd, wm_wet_ztd := Some wet_ztd\<rparr>)"
    using g getZTD_ignores_zref [of _ self] by simp
  then show ?thesis
    using e by (intro exI conjI)
qed

theorem getZTD_integrates_upward_witness:
  "wm_lats sample_model = Some [[[10, 10, 10]]] \<and>
   wm_wet_refractivity sample_model = Some [[[60, 50, 30]]] \<and>
   wm_hydrostatic_refractivity sample_model = Some [[[270, 260, 250]]] \<and>
   has_shape [[[60, 50, 30]]] 1 1 3 \<and>
   has_shape [[[270, 260, 250]]] 1 1 3 \<and>
   length (wm_zs sample_model) = 3 \<and>
   (\<exists>wet_ztd hydrostatic_ztd.
      getZTD (Some 15000) sample_model =
        Inr (sample_model\<lparr>wm_hydrostatic_ztd := Some hydrostatic_ztd,
                          wm_wet_ztd := Some wet_ztd\<rparr>) \<and>
      wet_ztd ! 0 ! 0 ! 0 = 0.0135 \<and> wet_ztd ! 0 ! 0 ! 1 = 0.008 \<and>
      wet_ztd ! 0 ! 0 ! 2 = 0 \<and> hydrostatic_ztd ! 0 ! 0 ! 1 = 0.051)"
proof -
  have h: "wm_lats sample_model = Some [[[10, 10, 10]]]"
    "wm_wet_refractivity sample_model = Some [[[60, 50, 30]]]"
    "wm_hydrostatic_refractivity sample_model = Some [[[270, 260, 250]]]"
    "has_shape [[[60, 50, 30]]] 1 1 3"
    "has_shape [[[270, 260, 250]]] 1 1 3"
    "length (wm_zs sample_model) = 3"
    by (simp_all add: sample_model_def has_shape_def)
  have z: "wm_zs sample_model = [0, 100, 300]" by (simp add: sample_model_def)
  from getZTD_integrates_upward [OF h] obtain wet_ztd hydrostatic_ztd where
    g: "\<forall>zref_arg. getZTD zref_arg sample_model =
          Inr (sample_model\<lparr>wm_hydrostatic_ztd := Some hydrostatic_ztd,
                            wm_wet_ztd := Some wet_ztd\<rparr>)"
    and e: "\<forall>i<1. \<forall>j<1. \<forall>k<3.
              wet_ztd ! i ! j ! k =
                0.000001 * trapezoid_upward_spec [0, 100, 300] ([[[60, 50, 30]]] ! i ! j) k \<and>
              hydrostatic_ztd ! i ! j ! k =
                0.000001 * trapezoid_upward_spec [0, 100, 300] ([[[270, 260, 250]]] ! i ! j) k"
    unfolding z by blast
  have v: "trapezoid_upward_spec [0, 100, 300] [60, 50, 30] 0 = 13500"
    "trapezoid_upward_spec [0, 100, 300] [60, 50, 30] (Suc 0) = 8000"
    "trapezoid_upward_spec [0, 100, 300] [60, 50, 30] 2 = 0"
    "trapezoid_upward_spec [0, 100, 300] [270, 260, 250] (Suc 0) = 51000"
    by (simp_all add: trapezoid_upward_spec_def numeral_2_eq_2)
  have "wet_ztd ! 0 ! 0 ! 0 = 0.0135"
    using e [rule_format, of 0 0 0] by (simp add: v)
  moreover have "wet_ztd ! 0 ! 0 ! 1 = 0.008" and "hydrostatic_ztd ! 0 ! 0 ! 1 = 0.051"
    using e [rule_format, of 0 0 1] by (simp_all add: v)
  moreover have "wet_ztd ! 0 ! 0 ! 2 = 0"
    using e [rule_format, of 0 0 2] by (simp add: v)
  ultimately show ?thesis using g [rule_format, of "Some 15000"] h by blast
qed

section \<open>Properties of \<^verbatim>\<open>fetch\<close>\<close>

text \<open>
  Claim C9. \<^verbatim>\<open>fetch\<close> raises an error for every query time that is earlier than the
  model's valid range, later than an upper bound of the range that is a time (not
  \<^verbatim>\<open>'Present'\<close>), or more recent than the current time minus the lag window. The error
  is the one \<^verbatim>\<open>checkTime\<close> raises, a \<^verbatim>\<open>RuntimeError\<close> when the range is a pair of a time
  and a time, \<^verbatim>\<open>'Present'\<close> or \<^verbatim>\<open>None\<close>, and it is raised before \<^verbatim>\<open>_fetch\<close> is invoked:
  whatever \<^verbatim>\<open>_fetch\<close> would do, the object and the world are as they were.
\<close>

theorem fetch_rejects_unavailable_time:
  assumes "(wm_valid_range self \<noteq> [] \<and>
              (\<exists>lower. wm_valid_range self ! 0 = DateTime lower \<and> time < lower)) \<or>
           (1 < length (wm_valid_range self) \<and>
              (\<exists>upper. wm_valid_range self ! 1 = DateTime upper \<and> upper < time)) \<or>
           now - wm_lag_time self < time"
  shows "\<exists>e. checkTime self now time = Inl e \<and>
             fetch fetch_impl now out lats lons time (self, world) = (Some e, self, world) \<and>
             ((\<exists>lower. 1 < length (wm_valid_range self) \<and>
                       wm_valid_range self ! 0 = DateTime lower \<and>
                       (\<forall>d. wm_valid_range self ! 1 \<noteq> Date d)) \<longrightarrow> e = RuntimeError)"
proof -
  from assms have "\<exists>e. checkTime self now time = Inl e \<and>
      ((\<exists>lower. 1 < length (wm_valid_range self) \<and>
                       wm_valid_range self ! 0 = DateTime lower \<and>
                       (\<forall>d. wm_valid_range self ! 1 \<noteq> Date d)) \<longrightarrow> e = RuntimeError)"
    by (auto simp: checkTime_def split: range_bound.splits)
  then show ?thesis
    by (auto simp: fetch_def)
qed

theorem fetch_rejects_unavailable_time_witness:
  "fetch (\<lambda>lats lons time out (self, world). (None, self, (time, out) # world))
         2000 ''out'' [10] [20] (- 5) (sample_model, []) =
     (Some RuntimeError, sample_model, []) \<and>
   fetch (\<lambda>lats lons time out (self, world). (None, self, (time, out) # world))
         2000000 ''out'' [10] [20] 1000001 (sample_model, []) =
     (Some RuntimeError, sample_model, []) \<and>
   fetch (\<lambda>lats lons time out (self, world). (None, self, (time, out) # world))
         2000 ''out'' [10] [20] 1950 (sample_model, []) =
     (Some RuntimeError, sample_model, [])"
proof -
  have vr: "wm_valid_range sample_model = [DateTime 0, DateTime 1000000]"
    and lag: "wm_lag_time sample_model = 100"
    by (simp_all add: sample_model_def)
  let ?f = "\<lambda>lats lons time out (self, world). (None, self, (time, out) # world)"
  have a: "fetch ?f 2000 ''out'' [10] [20] (- 5) (sample_model, []) =
           (Some RuntimeError, sample_model, [])"
    using fetch_rejects_unavailable_time
      [of sample_model "- 5" 2000 ?f "''out''" "[10]" "[20]" "[]"]
    by (auto simp: vr lag)
  have b: "fetch ?f 2000000 ''out'' [10] [20] 1000001 (sample_model, []) =
           (Some RuntimeError, sample_model, [])"
    using fetch_rejects_unavailable_time
      [of sample_model 1000001 2000000 ?f "''out''" "[10]" "[20]" "[]"]
    by (auto simp: vr lag)
  have c: "fetch ?f 2000 ''out'' [10] [20] 1950 (sample_model, []) =
           (Some RuntimeError, sample_model, [])"
    using fetch_rejects_unavailable_time
      [of sample_model 1950 2000 ?f "''out''" "[10]" "[20]" "[]"]
    by (auto simp: vr lag)
  from a b c show ?thesis by simp
qed

text \<open>
  For contrast, a query time inside the valid range and older than the lag window:
  \<^verbatim>\<open>_fetch\<close> is invoked, with the time stored in the object.
\<close>

lemma fetch_available_time:
  "fetch (\<lambda>lats lons time out (self, world). (None, self, (time, out) # world))
         2000 ''out'' [10] [20] 1000 (sample_model, []) =
     (None, sample_model\<lparr>wm_time := Some 1000\<rparr>, [(1000, ''out'')])"
  by (simp add: fetch_def checkTime_def checkLL_def sample_model_def mask_assign_def)

section \<open>Properties of the dispatch\<close>

text \<open>
  Rounding to a double: zero, the whole numbers below \<open>2\<^sup>5\<^sup>3\<close> and one half are doubles,
  and a number less than one half away from a whole number is rounded to it.
\<close>

lemma float64_0: "float64 0 = 0"
  by (simp add: float64_def)

lemma round_half_even_of_int: "round_half_even (of_int k) = k"
  by (simp add: round_half_even_def)

lemma round_half_even_eqI:
  assumes "of_int n - 1 / 2 < x" and "x < of_int n + 1 / 2"
  shows "round_half_even x = n"
proof (cases "of_int n \<le> x")
  case True
  then have "\<lfloor>x\<rfloor> = n" using assms by (intro floor_unique) simp_all
  then show ?thesis using assms by (simp add: round_half_even_def Let_def)
next
  case False
  then have f: "\<lfloor>x\<rfloor> = n - 1" using assms by (intro floor_unique) simp_all
  have "1 / 2 < x - of_int (n - 1)" using assms by simp
  then show ?thesis using f by (simp add: round_half_even_def Let_def)
qed

lemma float64_nat:
  assumes "n < 2 ^ 53"
  shows "float64 (real n) = real n"
proof (cases "n = 0")
  case True
  then show ?thesis by (simp add: float64_0)
next
  case False
  define b where "b = floorlog 2 n"
  have pos: "0 < n" using False by simp
  from floorlog_bounds [OF pos, of 2] have lo: "2 ^ (b - 1) \<le> n" and hi: "n < 2 ^ b"
    by (simp_all add: b_def)
  have b1: "1 \<le> b" using hi pos by (cases b) simp_all
  have "(2::nat) ^ (b - 1) < 2 ^ 53" using lo assms by simp
  then have "b - 1 < 53"
    by (simp only: power_strict_increasing_iff [of 2] one_less_numeral_iff semiring_norm)
  then have b53: "b \<le> 53" by simp
  define s where "s = 53 - b"
  have e: "float_exponent \<bar>real n\<bar> - 52 = - int s"
    using pos b1 b53 by (simp add: float_exponent_def b_def s_def)
  have u: "(2::real) powi (- int s) = 1 / 2 ^ s"
    by (simp add: power_int_minus inverse_eq_divide)
  have "real n / (1 / 2 ^ s) = of_int (int n * 2 ^ s)"
    by simp
  then have r: "round_half_even (real n / (1 / 2 ^ s)) = int n * 2 ^ s"
    by (simp only: round_half_even_of_int)
  have "float64 (real n) = of_int (int n * 2 ^ s) * (1 / 2 ^ s)"
    using pos unfolding float64_def e u r Let_def by simp
  also have "\<dots> = real n" by simp
  finally show ?thesis .
qed

lemma float64_half: "float64 (1 / 2) = 1 / 2"
proof -
  have e: "float_exponent \<bar>1 / 2\<bar> = - 1"
    by (simp add: float_exponent_def compute_floorlog)
  have u: "(2::real) powi (- 1 - 52) = 1 / 9007199254740992"
    by (simp add: power_int_minus inverse_eq_divide)
  have r: "round_half_even (1 / 2 / (1 / 9007199254740992)) = 4503599627370496"
    by (rule round_half_even_eqI) simp_all
  show ?thesis
    unfolding float64_def e u r Let_def by simp
qed

lemma zenith_one_point:
  "common_delay sample_util (map (\<lambda>p. c)) [0] [0] [14998] Zenith True =
     Inr [0.000001 * (2 * c)]"
proof -
  have lv: "look_vectors sample_util [0] [0] [14998] Zenith True = Inr [(2, 0, 0)]"
    by (simp add: look_vectors_def sample_util_def zenith_look_def)
  have n: "norm3 (2, 0, 0) = 2" by (simp add: norm3_def)
  have st: "ray_steps 2 = 2" by (simp add: ray_steps_def step_def)
  have tp: "ray_t_points 2 = [0, 2]" by (simp add: ray_t_points_def st linspace_def)
  show ?thesis
    by (simp add: common_delay_def correction_def lv n st tp cumsum_def roll1_def
        ray_positions_def trapz_def np_diff_def)
qed

lemma zenith_no_point:
  "common_delay u delay [] [] [] Zenith True = Inl IndexError"
  by (simp add: common_delay_def correction_def look_vectors_def cumsum_def roll1_def)

text \<open>
  With two workers there is one hydrostatic and one wet job over all points, and both
  orders of the two jobs give the result of the sequential path.
\<close>

lemma parallel_two_workers:
  assumes "sched = [0, 1] \<or> sched = [1, 0]"
  shows "delay_from_grid sample_util 2 sched sample_weather [(0, 0, 14998)] Zenith True True =
     Inr ([0.00046], [0.00002])"
proof -
  have h: "linspace_int 0 (length [(0::real, 0::real, 14998::real)]) (2 div 2 + 1) = [0, 1]"
    by (simp add: linspace_int_def float64_0)
  have j: "collect (map (make_job ''hydro'' [0, 1]) [0..<2 div 2] @
                    map (make_job ''wet'' [0, 1]) [0..<2 - 2 div 2]) =
           Inr [(''hydro'', 0, 1), (''wet'', 0, 1)]"
    by (simp add: make_job_def getitem_def)
  have gh: "go sample_util sample_weather [0] [0] [14998] True (''hydro'', 0, Suc 0) Zenith =
            (Inr [0.00046], Zenith)"
    by (simp add: go_def slice_def los_slice_def hydrostatic_delay_def sample_weather_def
        zenith_one_point los_after_def los_store_slice_def)
  have gw: "go sample_util sample_weather [0] [0] [14998] True (''wet'', 0, Suc 0) Zenith =
            (Inr [0.00002], Zenith)"
    by (simp add: go_def slice_def los_slice_def wet_delay_def sample_weather_def
        zenith_one_point los_after_def los_store_slice_def)
  show ?thesis
    unfolding delay_from_grid_def Let_def parmap_def h j
    using assms
    by (auto simp: reshape_los_def gh gw np_concatenate_def restore_shape_def)
qed

lemma rescale_look_idem:
  assumes "third v \<noteq> 0" and "zr \<noteq> 0"
  shows "rescale_look zr (rescale_look zr v) = rescale_look zr v"
  using assms by (cases v) (simp add: rescale_look_def div3_def third_def)

lemma run_jobs_length:
  "length (fst (run_jobs f jobs sched (answers, store))) = length answers"
proof (induction sched arbitrary: answers store)
  case Nil
  then show ?case by simp
next
  case (Cons k ks)
  show ?case
  proof (cases "k < length jobs")
    case True
    obtain r store' where fk: "f (jobs ! k) store = (r, store')" by (cases "f (jobs ! k) store")
    show ?thesis
      using True fk Cons.IH by (cases r) simp_all
  next
    case False
    then show ?thesis using Cons.IH by simp
  qed
qed

lemma run_jobs_failed_slot:
  assumes "\<forall>store. \<exists>e store'. f (jobs ! k) store = (Inl e, store')"
    and "k < length answers" and "answers ! k = None"
  shows "fst (run_jobs f jobs sched (answers, store)) ! k = None"
  using assms(2,3)
proof (induction sched arbitrary: answers store)
  case Nil
  then show ?case by simp
next
  case (Cons j js)
  show ?case
  proof (cases "j < length jobs")
    case True
    obtain r store' where fj: "f (jobs ! j) store = (r, store')" by (cases "f (jobs ! j) store")
    show ?thesis
    proof (cases r)
      case (Inl e)
      then show ?thesis using True fj Cons by simp
    next
      case (Inr v)
      with fj assms(1) have "j \<noteq> k" by (metis Pair_inject sum.distinct(1))
      then have "answers[j := Some v] ! k = None" using Cons.prems by simp
      then show ?thesis using True fj Inr Cons.IH [of "answers[j := Some v]" store'] Cons.prems
        by simp
    qed
  next
    case False
    then show ?thesis using Cons by simp
  qed
qed

lemma np_concatenate_None:
  assumes "k < n" and "k < length rs" and "rs ! k = None"
  shows "np_concatenate (take n rs) = Inl ValueError"
proof -
  have "k < length (take n rs)" and "take n rs ! k = None"
    using assms by simp_all
  then have "None \<in> set (take n rs)" by (metis nth_mem)
  then show ?thesis by (auto simp: np_concatenate_def list_ex_iff)
qed

text \<open>
  With four workers and one query point the first hydrostatic job is the empty range
  \<open>(0, 0)\<close>; \<^verbatim>\<open>_common_delay\<close> raises \<^verbatim>\<open>IndexError\<close> on it in its thread, the answer
  stays \<^verbatim>\<open>None\<close>, and \<^verbatim>\<open>np.concatenate\<close> fails, whatever the order of the jobs.
\<close>

lemma parallel_more_workers_than_points:
  "delay_from_grid sample_util 4 sched sample_weather [(0, 0, 14998)] Zenith True True =
     Inl ValueError"
proof -
  let ?f = "go sample_util sample_weather [0] [0] [14998] True"
  let ?jobs = "[(''hydro'', 0, 0), (''hydro'', 0, 1), (''wet'', 0, 0), (''wet'', 0, 1)] :: job list"
  have h: "linspace_int 0 (length [(0::real, 0::real, 14998::real)]) (4 div 2 + 1) = [0, 0, 1]"
    by (simp add: linspace_int_def float64_0 float64_half upt_conv_Cons)
  have j: "collect (map (make_job ''hydro'' [0, 0, 1]) [0..<4 div 2] @
                    map (make_job ''wet'' [0, 0, 1]) [0..<4 - 4 div 2]) = Inr ?jobs"
    by (simp add: make_job_def getitem_def upt_conv_Cons)
  have g0: "\<forall>store. \<exists>e store'. ?f (?jobs ! 0) store = (Inl e, store')"
    by (simp add: go_def slice_def los_slice_def hydrostatic_delay_def common_delay_def
        correction_def look_vectors_def cumsum_def roll1_def split: los.splits)
  let ?rr = "run_jobs ?f ?jobs sched (replicate (length ?jobs) None, Zenith)"
  have len: "length (fst ?rr) = 4"
    using run_jobs_length [of ?f ?jobs sched "replicate (length ?jobs) None" Zenith] by simp
  have none: "fst ?rr ! 0 = None"
    using run_jobs_failed_slot
      [of ?f ?jobs 0 "replicate (length ?jobs) None" sched Zenith, OF g0] by simp
  have "np_concatenate (take (4 div 2) (fst ?rr)) = Inl ValueError"
  proof (rule np_concatenate_None [of 0])
    show "0 < (4::nat) div 2" by simp
    show "0 < length (fst ?rr)" unfolding len by simp
    show "fst ?rr ! 0 = None" by (rule none)
  qed
  then show ?thesis
    unfolding delay_from_grid_def Let_def parmap_def h j
    by (simp add: reshape_los_def case_prod_beta del: replicate.simps)
qed

lemma sequential_one_point:
  "delay_from_grid sample_util num_procs sched sample_weather [(0, 0, 14998)] Zenith False True =
     Inr ([0.00046], [0.00002])"
  by (simp add: delay_from_grid_def reshape_los_def hydrostatic_delay_def wet_delay_def
      sample_weather_def zenith_one_point los_after_def restore_shape_def)

lemma parallel_three_workers:
  "delay_from_grid u 3 sched w llas Zenith True raytrace = Inl IndexError"
proof -
  have h: "linspace_int 0 (length llas) (3 div 2 + 1) = [0, length llas]"
    by (simp add: linspace_int_def float64_0)
  have j: "collect (map (make_job ''hydro'' [0, length llas]) [0..<3 div 2] @
                    map (make_job ''wet'' [0, length llas]) [0..<3 - 3 div 2]) = Inl IndexError"
    by (simp add: make_job_def getitem_def upt_conv_Cons)
  show ?thesis
    unfolding delay_from_grid_def Let_def parmap_def h j
    by (simp add: reshape_los_def)
qed

text \<open>
  Claim C1: \<^verbatim>\<open>delay_from_grid\<close> with \<^verbatim>\<open>parallel=True\<close> returns the arrays of the same call
  with \<^verbatim>\<open>parallel=False\<close>, whatever the worker count and the order of the jobs. The
  wet jobs are cut from \<^verbatim>\<open>hindices\<close>, the partition made for the hydrostatic jobs, and
  \<^verbatim>\<open>windices\<close> is never read. With three workers there are one hydrostatic and two wet
  jobs, the second wet job reads \<^verbatim>\<open>hindices[2]\<close> beyond the end of the array, and the
  parallel call raises \<^verbatim>\<open>IndexError\<close> for every order of the jobs, where the sequential
  call returns the delays of the query point.
\<close>

theorem parallel_odd_worker_count_raises:
  "delay_from_grid sample_util 3 sched sample_weather [(0, 0, 14998)] Zenith True True =
     Inl IndexError \<and>
   delay_from_grid sample_util 3 sched sample_weather [(0, 0, 14998)] Zenith False True =
     Inr ([0.00046], [0.00002])"
  by (simp only: parallel_three_workers sequential_one_point simp_thms)

section \<open>Properties of \<^verbatim>\<open>load\<close>\<close>

lemma find_svp_map: "find_svp t = map find_svp_point t"
  by (intro nth_equalityI) (simp_all add: find_svp_length find_svp_nth)

text \<open>
  \<^verbatim>\<open>_get_ll_bounds\<close> leaves the name and the time of the model as they are: it
  assigns nothing but the cached bounding box.
\<close>

lemma get_ll_bounds_keeps:
  assumes "get_ll_bounds ev self lats lons Nextra = Inr (bounds, self')"
  shows "wm_time self' = wm_time self \<and> wm_Name self' = wm_Name self"
  using assms
  by (auto simp: get_ll_bounds_def bbox_def bindE_def Let_def
      split: if_splits sum.splits option.splits list.splits prod.splits)

text \<open>
  The name of the prepared grid is made of the output directory, the name of the model,
  its formatted time, and the bounds that \<^verbatim>\<open>_get_ll_bounds\<close> computes, two cells wide,
  for the coordinates of the query (the grid's own where none are given).
\<close>

lemma out_file_key:
  assumes "out_file ev self outLoc outLats outLons = Inr (name, self0)"
  shows "\<exists>t bounds.
           get_ll_bounds ev self
             (if outLats = None then map_option flatten3 (wm_lats self) else outLats)
             (if outLons = None then map_option flatten3 (wm_lons self) else outLons) 2 =
             Inr (bounds, self0) \<and>
           wm_time self = Some t \<and>
           name = os_path_join outLoc
                    (make_weather_model_filename (wm_Name self) (strftime ev t) bounds)"
proof -
  let ?lats = "if outLats = None then map_option flatten3 (wm_lats self) else outLats"
  let ?lons = "if outLons = None then map_option flatten3 (wm_lons self) else outLons"
  from assms obtain bounds where
    g: "get_ll_bounds ev self ?lats ?lons 2 = Inr (bounds, self0)"
    and t: "wm_time self0 \<noteq> None"
    and n: "name = os_path_join outLoc
           (make_weather_model_filename (wm_Name self0) (strftime ev (the (wm_time self0)))
              bounds)"
    by (auto simp: out_file_def bindE_def Let_def split: sum.splits option.splits)
  from get_ll_bounds_keeps [OF g]
  have k: "wm_time self0 = wm_time self" "wm_Name self0 = wm_Name self"
    by simp_all
  from t k have "wm_time self = Some (the (wm_time self))" by simp
  with g n k show ?thesis
    by (intro exI [of _ "the (wm_time self)"] exI [of _ bounds]) simp
qed

text \<open>
  The bounds enter the name rounded: two boxes whose bounds have the same signs and the
  same ceilings of their absolute values give the same name.
\<close>

lemma filename_of_rounded_bounds:
  assumes "\<lceil>\<bar>a0\<bar>\<rceil> = \<lceil>\<bar>b0\<bar>\<rceil>" "\<lceil>\<bar>a1\<bar>\<rceil> = \<lceil>\<bar>b1\<bar>\<rceil>"
    and "\<lceil>\<bar>a2\<bar>\<rceil> = \<lceil>\<bar>b2\<bar>\<rceil>" "\<lceil>\<bar>a3\<bar>\<rceil> = \<lceil>\<bar>b3\<bar>\<rceil>"
    and "a0 < 0 \<longleftrightarrow> b0 < 0" "a1 < 0 \<longleftrightarrow> b1 < 0"
    and "a2 < 0 \<longleftrightarrow> b2 < 0" "a3 < 0 \<longleftrightarrow> b3 < 0"
  shows "make_weather_model_filename n t (a0, a1, a2, a3) =
         make_weather_model_filename n t (b0, b1, b2, b3)"
  using assms by (simp add: make_weather_model_filename_def)

lemma load_cache_hit:
  assumes "out_file ev self outLoc outLats outLons = Inr (name, self0)" and "name \<in> fs"
  shows "load ev st outLoc args outLats outLons zlevels zref_arg fs self =
           Inr (Some name, self0\<lparr>wm_out_name := Some name\<rparr>, fs)"
  using assms by (simp add: load_def bindE_def)

lemma load_cache_miss:
  assumes "out_file ev self outLoc outLats outLons = Inr (name, self0)" and "name \<notin> fs"
  shows "load ev st outLoc args outLats outLons zlevels zref_arg fs self =
           bindE (get_ll_bounds ev (self0\<lparr>wm_out_name := Some name\<rparr>) outLats outLons 2)
             (\<lambda>(bounds, self1).
           bindE (load_weather st args fs (self1\<lparr>wm_ll_bounds := Some bounds\<rparr>)) (\<lambda>self2.
           bindE (run_stages (pipeline_spec st outLats outLons zlevels zref_arg) self2) (\<lambda>self3.
             Inr (None, self3, fs))))"
  using assms
  by (simp add: load_def bindE_def pipeline_spec_def split: sum.splits prod.splits)

text \<open>\<^verbatim>\<open>load\<close> leaves the files on disk as they are, whatever it returns.\<close>

lemma load_keeps_disk:
  assumes "load ev st outLoc args outLats outLons zlevels zref_arg fs self = Inr (r, self', fs')"
  shows "fs' = fs"
  using assms
  by (auto simp: load_def bindE_def Let_def split: sum.splits prod.splits if_splits)

lemma sample_out_file:
  "out_file sample_env sample_model ''weather_files'' None None =
     Inr (''weather_files/ERA5_1970_01_01_T5000_10N_11N_20E_21E.nc'', sample_model)"
  by (simp add: out_file_def get_ll_bounds_def sample_model_def sample_env_def bindE_def
      flatten3_def nanmin_def nanmax_def make_weather_model_filename_def os_path_join_def
      show_nat.simps)

lemma sample_ll_bounds:
  "get_ll_bounds sample_env (sample_model\<lparr>wm_out_name := Some n\<rparr>) None None 2 =
     Inr ((19 / 2, 21 / 2, 39 / 2, 41 / 2), sample_model\<lparr>wm_out_name := Some n\<rparr>)"
  by (simp add: get_ll_bounds_def sample_model_def bindE_def flatten3_def nanmin_def nanmax_def)

lemma sample_pipeline:
  "\<exists>self'. run_stages (pipeline_spec sample_stages None None None 15000)
      (sample_model\<lparr>wm_out_name := Some n, wm_ll_bounds := Some b\<rparr>) = Inr self'"
  by (simp add: pipeline_spec_def sample_stages_def find_e_def find_e_from_q_def bindE_def
      sample_model_def any3_def zip3_with_def get_wet_refractivity_def get_hydro_refractivity_def
      getZTD_def shape3_def zeros3_def trapz_axis2_def drop_axis2_def set_level_def
      trapz_def np_diff_def upt_conv_Cons find_svp_map)

lemma sample_load_miss:
  "\<exists>self'. load sample_env sample_stages ''weather_files'' [] None None None 15000 {}
             sample_model = Inr (None, self', {})"
proof -
  let ?n = "''weather_files/ERA5_1970_01_01_T5000_10N_11N_20E_21E.nc''"
  let ?b = "(19 / 2, 21 / 2, 39 / 2, 41 / 2) :: real \<times> real \<times> real \<times> real"
  from sample_pipeline [where n = ?n and b = ?b] obtain self' where
    p: "run_stages (pipeline_spec sample_stages None None None 15000)
          (sample_model\<lparr>wm_out_name := Some ?n, wm_ll_bounds := Some ?b\<rparr>) = Inr self'"
    by blast
  have lw: "load_weather sample_stages [] {}
              (sample_model\<lparr>wm_out_name := Some ?n, wm_ll_bounds := Some ?b\<rparr>) =
            Inr (sample_model\<lparr>wm_out_name := Some ?n, wm_ll_bounds := Some ?b\<rparr>)"
    by (simp add: sample_stages_def)
  have "load sample_env sample_stages ''weather_files'' [] None None None 15000 {}
          sample_model = Inr (None, self', {})"
    by (subst load_cache_miss [OF sample_out_file])
       (simp_all add: sample_ll_bounds bindE_def lw p)
  then show ?thesis by blast
qed

text \<open>
  Claim C8, as stated: when no prepared grid of the matching name is on disk, \<^verbatim>\<open>load\<close>
  runs the pipeline and persists the prepared grid. On an empty disk, \<^verbatim>\<open>load\<close> of the
  sample model returns normally, with \<^verbatim>\<open>None\<close>, and the file it named is not on disk
  after the call: the disk is still empty.
\<close>

theorem load_does_not_persist_counterexample:
  "\<not> isl (load sample_env sample_stages ''weather_files'' [] None None None 15000 {}
            sample_model) \<and>
   fst (projr (load sample_env sample_stages ''weather_files'' [] None None None 15000 {}
                 sample_model)) = None \<and>
   ''weather_files/ERA5_1970_01_01_T5000_10N_11N_20E_21E.nc'' \<notin>
     snd (snd (projr (load sample_env sample_stages ''weather_files'' [] None None None
                        15000 {} sample_model)))"
proof -
  from sample_load_miss obtain self' where
    "load sample_env sample_stages ''weather_files'' [] None None None 15000 {}
       sample_model = Inr (None, self', {})"
    by blast
  then show ?thesis by simp
qed

lemma sample_key_bounds:
  "get_ll_bounds sample_env sample_model (Some [10, 10, 10]) (Some [20, 20, 20]) 2 =
     Inr ((19 / 2, 21 / 2, 39 / 2, 41 / 2), sample_model)"
  by (simp add: get_ll_bounds_def sample_model_def bindE_def nanmin_def nanmax_def)

text \<open>
  Claim C8, amended. The name of the prepared grid is keyed by the name of the model, its
  time and the rounded bounding box of the query: it is \<^verbatim>\<open>make_weather_model_filename\<close>
  of the model's own name, of the model's own formatted time, and of the bounds that
  \<^verbatim>\<open>_get_ll_bounds\<close> computes for the coordinates of the query (the grid's own where none
  are given), in the output directory. If a file of that name is on disk, \<^verbatim>\<open>load\<close>
  returns its path. Otherwise it computes the bounds of the query, calls \<^verbatim>\<open>load_weather\<close>
  and runs the pipeline in the order of the specification (humidity to vapour pressure,
  uniform regridding in z, NaN fill, refractivity, grid adjustment and extent trim, zenith
  integration); it then returns \<^verbatim>\<open>None\<close> and has written nothing: the files on disk
  are those of before the call.
\<close>

theorem load_cached_or_prepared:
  assumes "out_file ev self outLoc outLats outLons = Inr (name, self0)"
  shows
   "(\<exists>t bounds.
       get_ll_bounds ev self
         (if outLats = None then map_option flatten3 (wm_lats self) else outLats)
         (if outLons = None then map_option flatten3 (wm_lons self) else outLons) 2 =
         Inr (bounds, self0) \<and>
       wm_time self = Some t \<and>
       name = os_path_join outLoc
                (make_weather_model_filename (wm_Name self) (strftime ev t) bounds)) \<and>
    (name \<in> fs \<longrightarrow>
       load ev st outLoc args outLats outLons zlevels zref_arg fs self =
         Inr (Some name, self0\<lparr>wm_out_name := Some name\<rparr>, fs)) \<and>
    (name \<notin> fs \<longrightarrow>
       load ev st outLoc args outLats outLons zlevels zref_arg fs self =
         bindE (get_ll_bounds ev (self0\<lparr>wm_out_name := Some name\<rparr>) outLats outLons 2)
           (\<lambda>(bounds, self1).
         bindE (load_weather st args fs (self1\<lparr>wm_ll_bounds := Some bounds\<rparr>)) (\<lambda>self2.
         bindE (run_stages (pipeline_spec st outLats outLons zlevels zref_arg) self2) (\<lambda>self3.
           Inr (None, self3, fs)))))"
  using out_file_key [OF assms] load_cache_hit [OF assms] load_cache_miss [OF assms]
  by blast

theorem load_cached_or_prepared_witness:
  "out_file sample_env sample_model ''weather_files'' None None =
     Inr (''weather_files/ERA5_1970_01_01_T5000_10N_11N_20E_21E.nc'', sample_model) \<and>
   get_ll_bounds sample_env sample_model (Some [10, 10, 10]) (Some [20, 20, 20]) 2 =
     Inr ((19 / 2, 21 / 2, 39 / 2, 41 / 2), sample_model) \<and>
   wm_time sample_model = Some 5000 \<and>
   ''weather_files/ERA5_1970_01_01_T5000_10N_11N_20E_21E.nc'' =
     os_path_join ''weather_files''
       (make_weather_model_filename (wm_Name sample_model) (strftime sample_env 5000)
          (19 / 2, 21 / 2, 39 / 2, 41 / 2)) \<and>
   ''weather_files/ERA5_1970_01_01_T5000_10N_11N_20E_21E.nc'' \<in>
     {''weather_files/ERA5_1970_01_01_T5000_10N_11N_20E_21E.nc''} \<and>
   load sample_env sample_stages ''weather_files'' [] None None None 15000
     {''weather_files/ERA5_1970_01_01_T5000_10N_11N_20E_21E.nc''} sample_model =
     Inr (Some ''weather_files/ERA5_1970_01_01_T5000_10N_11N_20E_21E.nc'',
          sample_model\<lparr>wm_out_name :=
            Some ''weather_files/ERA5_1970_01_01_T5000_10N_11N_20E_21E.nc''\<rparr>,
          {''weather_files/ERA5_1970_01_01_T5000_10N_11N_20E_21E.nc''}) \<and>
   ''weather_files/ERA5_1970_01_01_T5000_10N_11N_20E_21E.nc'' \<notin> ({} :: string set) \<and>
   load sample_env sample_stages ''weather_files'' [] None None None 15000 {} sample_model =
     bindE (run_stages (pipeline_spec sample_stages None None None 15000)
              (sample_model\<lparr>wm_out_name :=
                   Some ''weather_files/ERA5_1970_01_01_T5000_10N_11N_20E_21E.nc'',
                 wm_ll_bounds := Some (19 / 2, 21 / 2, 39 / 2, 41 / 2)\<rparr>))
       (\<lambda>self3. Inr (None, self3, {}))"
proof -
  let ?n = "''weather_files/ERA5_1970_01_01_T5000_10N_11N_20E_21E.nc''"
  note hit =
    load_cached_or_prepared [OF sample_out_file, of "{?n}" sample_stages "[]" None 15000]
  note miss =
    load_cached_or_prepared [OF sample_out_file, of "{}" sample_stages "[]" None 15000]
  have t: "wm_time sample_model = Some 5000" by (simp add: sample_model_def)
  from hit obtain t' bounds where
    b: "get_ll_bounds sample_env sample_model
          (if (None :: real list option) = None
           then map_option flatten3 (wm_lats sample_model) else None)
          (if (None :: real list option) = None
           then map_option flatten3 (wm_lons sample_model) else None) 2 =
        Inr (bounds, sample_model)"
    and t': "wm_time sample_model = Some t'"
    and n: "?n = os_path_join ''weather_files''
                   (make_weather_model_filename (wm_Name sample_model)
                      (strftime sample_env t') bounds)"
    by blast
  have fl: "map_option flatten3 (wm_lats sample_model) = Some [10, 10, 10]"
    "map_option flatten3 (wm_lons sample_model) = Some [20, 20, 20]"
    by (simp_all add: sample_model_def flatten3_def)
  from b have "bounds = (19 / 2, 21 / 2, 39 / 2, 41 / 2)"
    by (simp add: fl sample_key_bounds)
  with n t t' have key: "?n = os_path_join ''weather_files''
       (make_weather_model_filename (wm_Name sample_model) (strftime sample_env 5000)
          (19 / 2, 21 / 2, 39 / 2, 41 / 2))"
    by simp
  from hit have h: "load sample_env sample_stages ''weather_files'' [] None None None 15000
     {?n} sample_model = Inr (Some ?n, sample_model\<lparr>wm_out_name := Some ?n\<rparr>, {?n})"
    by simp
  from miss have m:
    "load sample_env sample_stages ''weather_files'' [] None None None 15000 {} sample_model =
       bindE (run_stages (pipeline_spec sample_stages None None None 15000)
                (sample_model\<lparr>wm_out_name := Some ?n,
                   wm_ll_bounds := Some (19 / 2, 21 / 2, 39 / 2, 41 / 2)\<rparr>))
         (\<lambda>self3. Inr (None, self3, {}))"
    by (simp add: sample_ll_bounds bindE_def sample_stages_def)
  show ?thesis
    using sample_out_file sample_key_bounds t key h m by simp
qed

section \<open>Agreement of the parallel and the sequential path\<close>

text \<open>
  With an interpolator that works point by point, \<^verbatim>\<open>_common_delay\<close> cuts from the
  interpolated values of all rays exactly the values of each ray.
\<close>

lemma indices_nth:
  assumes "i < length steps"
  shows "(roll1 (cumsum steps))[0 := 0] ! i = sum_list (take i steps)"
proof (cases i)
  case 0
  with assms show ?thesis by (simp add: roll1_def cumsum_def)
next
  case (Suc j)
  with assms have j: "j < length steps" and ne: "cumsum steps \<noteq> []"
    by (auto simp: cumsum_def)
  have "roll1 (cumsum steps) ! Suc j = butlast (cumsum steps) ! j"
    using ne by (simp add: roll1_def)
  also have "\<dots> = cumsum steps ! j"
    using assms Suc by (simp add: nth_butlast cumsum_def)
  also have "\<dots> = sum_list (take (Suc j) steps)"
    using j by (simp add: cumsum_def)
  finally show ?thesis using Suc assms by (simp add: roll1_def cumsum_def)
qed

lemma concat_chunk:
  assumes "i < length xss"
  shows "take (length (xss ! i)) (drop (sum_list (map length (take i xss))) (concat xss)) = xss ! i"
proof -
  have "xss = take i xss @ xss ! i # drop (Suc i) xss"
    using assms by (rule id_take_nth_drop)
  then have "concat xss = concat (take i xss) @ xss ! i @ concat (drop (Suc i) xss)"
    by (metis concat.simps(2) concat_append)
  moreover have "length (concat (take i xss)) = sum_list (map length (take i xss))"
    by (simp add: length_concat)
  ultimately show ?thesis by simp
qed

lemma ray_positions_length: "length (ray_positions start look) = ray_steps (norm3 look)"
  by (simp add: ray_positions_def ray_t_points_def linspace_def)

lemma ray_t_points_length: "length (ray_t_points len) = ray_steps len"
  by (simp add: ray_t_points_def linspace_def)

lemma trapz_ray:
  "trapz (map g (ray_positions start look)) (ray_t_points (norm3 look)) =
     Inr (1000000 * ray_delay g start look)"
  using trapz_same_length [of "map g (ray_positions start look)" "ray_t_points (norm3 look)"]
  by (simp add: ray_positions_length ray_t_points_length ray_delay_def Let_def)

lemma common_delay_pointwise:
  assumes lv: "look_vectors u lats lons hts look_vecs rt = Inr look"
    and co: "correction u look_vecs rt = Inr corr"
    and len: "length lons = length lats" "length hts = length lats" "length look = length lats"
    and lc: "case corr of None \<Rightarrow> True | Some c \<Rightarrow> length c = length lats"
    and ne: "lats \<noteq> []"
  shows "common_delay u (map g) lats lons hts look_vecs rt =
    Inr (map (\<lambda>i. ray_delay g (lla2ecef u (lats ! i) (lons ! i) (hts ! i)) (look ! i) *
                   (case corr of None \<Rightarrow> 1 | Some c \<Rightarrow> c ! i)) [0..<length lats])"
proof -
  define n where "n = length lats"
  define steps where "steps = map ray_steps (map norm3 look)"
  define indices where "indices = (roll1 (cumsum steps))[0 := 0]"
  define starts where "starts = map (\<lambda>(lat, lon, h). lla2ecef u lat lon h) (zip lats (zip lons hts))"
  define positions_l where "positions_l = map2 ray_positions starts look"
  define wet_delays where "wet_delays = map g (concat positions_l)"
  define integrals where "integrals =
     map (\<lambda>i. trapz (take (steps ! i) (drop (indices ! i) wet_delays))
                     (map ray_t_points (map norm3 look) ! i)) [0..<length steps]"
  have ls: "length steps = n" and lst: "length starts = n" and lp: "length positions_l = n"
    using len by (simp_all add: steps_def starts_def positions_l_def n_def)
  have st: "steps = map length positions_l"
    using len by (intro nth_equalityI)
      (simp_all add: steps_def positions_l_def starts_def ray_positions_length)
  have chunk: "take (steps ! i) (drop (indices ! i) wet_delays) = map g (positions_l ! i)"
    if "i < n" for i
  proof -
    have "indices ! i = sum_list (map length (take i positions_l))"
      using that ls indices_nth [of i steps] by (simp add: indices_def st take_map)
    moreover have "steps ! i = length (positions_l ! i)"
      using that lp by (simp add: st)
    ultimately show ?thesis
      using concat_chunk [of i positions_l] that lp
      by (simp add: wet_delays_def take_map drop_map)
  qed
  have pos: "positions_l ! i =
      ray_positions (lla2ecef u (lats ! i) (lons ! i) (hts ! i)) (look ! i)" if "i < n" for i
    using that len by (simp add: positions_l_def starts_def n_def)
  have ints: "integrals =
      map (\<lambda>i. Inr (1000000 * ray_delay g (lla2ecef u (lats ! i) (lons ! i) (hts ! i)) (look ! i)))
        [0..<n]"
    unfolding integrals_def ls
  proof (rule map_cong [OF refl])
    fix i assume "i \<in> set [0..<n]"
    then have i: "i < n" by simp
    then have "map ray_t_points (map norm3 look) ! i = ray_t_points (norm3 (look ! i))"
      using len by (simp add: n_def)
    with chunk [OF i] pos [OF i] show "trapz (take (steps ! i) (drop (indices ! i) wet_delays))
          (map ray_t_points (map norm3 look) ! i) =
        Inr (1000000 * ray_delay g (lla2ecef u (lats ! i) (lons ! i) (hts ! i)) (look ! i))"
      by (simp add: trapz_ray)
  qed
  have col: "collect integrals =
      Inr (map (\<lambda>i. 1000000 * ray_delay g (lla2ecef u (lats ! i) (lons ! i) (hts ! i)) (look ! i))
        [0..<n])"
    unfolding ints by (rule collect_map_Inr) simp
  have nonempty: "roll1 (cumsum steps) \<noteq> []"
    using ne ls by (simp add: roll1_def cumsum_def n_def)
  have cd: "common_delay u (map g) lats lons hts look_vecs rt =
      (case collect integrals of
         Inl e \<Rightarrow> Inl e
       | Inr vals \<Rightarrow>
           (case corr of
              None \<Rightarrow> Inr (map (\<lambda>v. 0.000001 * v) vals)
            | Some c \<Rightarrow> Inr (map2 (\<lambda>d k. d * k) (map (\<lambda>v. 0.000001 * v) vals) c)))"
    using lv co len lc nonempty
    unfolding common_delay_def integrals_def wet_delays_def positions_l_def starts_def
      indices_def steps_def
    by (simp add: Let_def split: sum.splits option.splits)
  show ?thesis
  proof (cases corr)
    case None
    then show ?thesis unfolding cd col by (simp add: n_def)
  next
    case (Some c)
    with lc have "length c = n" by (simp add: n_def)
    with Some show ?thesis unfolding cd col
      by (auto simp: n_def intro!: nth_equalityI)
  qed
qed

text \<open>
  Jobs that leave the shared array as it is can run in any order; consecutive ranges of
  a partition put the array together again; and \<^verbatim>\<open>hindices\<close> starts at 0 and ends at the
  number of points.
\<close>

lemma run_jobs_pure:
  assumes "\<forall>k<length jobs. f (jobs ! k) store = (Inr (r k), store)"
    and "length answers = length jobs"
  shows "run_jobs f jobs sched (answers, store) =
           (map (\<lambda>k. if k \<in> set sched then Some (r k) else answers ! k) [0..<length jobs], store)"
  using assms(2)
proof (induction sched arbitrary: answers)
  case Nil
  then have "map ((!) answers) [0..<length jobs] = answers" by (metis map_nth)
  then show ?case by simp
next
  case (Cons j js)
  show ?case
  proof (cases "j < length jobs")
    case True
    then have fj: "f (jobs ! j) store = (Inr (r j), store)" using assms(1) by simp
    have "run_jobs f jobs (j # js) (answers, store) =
          run_jobs f jobs js (answers[j := Some (r j)], store)"
      using True fj by simp
    also have "\<dots> = (map (\<lambda>k. if k \<in> set js then Some (r k) else answers[j := Some (r j)] ! k)
                         [0..<length jobs], store)"
      using Cons.IH [of "answers[j := Some (r j)]"] Cons.prems by simp
    also have "map (\<lambda>k. if k \<in> set js then Some (r k) else answers[j := Some (r j)] ! k)
                   [0..<length jobs] =
               map (\<lambda>k. if k \<in> set (j # js) then Some (r k) else answers ! k) [0..<length jobs]"
      using Cons.prems by (intro map_cong [OF refl]) (auto simp: nth_list_update)
    finally show ?thesis .
  next
    case False
    have "run_jobs f jobs (j # js) (answers, store) = run_jobs f jobs js (answers, store)"
      using False by simp
    also have "\<dots> = (map (\<lambda>k. if k \<in> set js then Some (r k) else answers ! k)
                         [0..<length jobs], store)"
      using Cons.IH [of answers] Cons.prems by simp
    also have "map (\<lambda>k. if k \<in> set js then Some (r k) else answers ! k) [0..<length jobs] =
               map (\<lambda>k. if k \<in> set (j # js) then Some (r k) else answers ! k) [0..<length jobs]"
      using False by (intro map_cong [OF refl]) auto
    finally show ?thesis .
  qed
qed

lemma slice_nth:
  assumes "i < b - a" and "b \<le> length xs"
  shows "slice xs a b ! i = xs ! (a + i)"
  using assms by (simp add: slice_def)

lemma slice_length:
  assumes "b \<le> length xs"
  shows "length (slice xs a b) = b - a"
  using assms by (simp add: slice_def)

lemma concat_slices:
  assumes "h 0 = 0" and "\<forall>i<m. h i \<le> h (Suc i)" and "k \<le> m"
  shows "concat (map (\<lambda>i. slice xs (h i) (h (Suc i))) [0..<k]) = take (h k) xs"
  using assms(3)
proof (induction k)
  case 0
  then show ?case using assms(1) by simp
next
  case (Suc k)
  then have le: "h k \<le> h (Suc k)" using assms(2) by simp
  have "take (h k) xs @ slice xs (h k) (h (Suc k)) = take (h (Suc k)) xs"
  proof -
    have "take (h (Suc k)) xs = take (h k + (h (Suc k) - h k)) xs" using le by simp
    also have "\<dots> = take (h k) xs @ take (h (Suc k) - h k) (drop (h k) xs)"
      by (rule take_add)
    finally show ?thesis by (simp add: slice_def)
  qed
  with Suc show ?case by simp
qed

lemma linspace_int_length: "length (linspace_int a b n) = n"
  by (simp add: linspace_int_def Let_def)

lemma linspace_int_nth:
  assumes "0 < m" and "i < m"
  shows "linspace_int 0 N (Suc m) ! i =
           nat \<lfloor>float64 (float64 (real i * float64 (real N / real m)))\<rfloor>"
  using assms by (simp add: linspace_int_def Let_def nth_append)

lemma linspace_int_last:
  assumes "0 < m"
  shows "linspace_int 0 N (Suc m) ! m = N"
  using assms by (simp add: linspace_int_def Let_def nth_append)

lemma linspace_int_first:
  assumes "0 < m"
  shows "linspace_int 0 N (Suc m) ! 0 = 0"
  using linspace_int_nth [OF assms assms, of N] by (simp add: float64_0)

text \<open>
  Where every job gets the same number \<open>k\<close> of points, the quotient and the products
  are whole numbers and the indices are the multiples of \<open>k\<close>.
\<close>

lemma linspace_int_equal_parts:
  assumes "0 < m" and "i \<le> m" and "m * k < 2 ^ 53"
  shows "linspace_int 0 (m * k) (Suc m) ! i = i * k"
proof (cases "i = m")
  case True
  then show ?thesis using linspace_int_last [OF assms(1), of "m * k"] by simp
next
  case False
  with assms have i: "i < m" by simp
  have "k \<le> m * k" using assms(1) by simp
  then have k: "k < 2 ^ 53" using assms(3) by (rule le_less_trans)
  have "i * k \<le> m * k" using i by (intro mult_le_mono1) simp
  then have ik: "i * k < 2 ^ 53" using assms(3) by (rule le_less_trans)
  have q: "real (m * k) / real m = real k" using assms(1) by simp
  have "float64 (float64 (real i * float64 (real (m * k) / real m))) =
        float64 (float64 (real (i * k)))"
    unfolding q float64_nat [OF k] by simp
  also have "\<dots> = real (i * k)"
    unfolding float64_nat [OF ik] ..
  finally have "linspace_int 0 (m * k) (Suc m) ! i = nat \<lfloor>real (i * k)\<rfloor>"
    unfolding linspace_int_nth [OF assms(1) i, of "m * k"] by (rule arg_cong)
  then show ?thesis by (simp only: floor_of_nat nat_int)
qed

text \<open>
  Where the quotient is no double the rounding shows: for 122 points and 14 jobs the
  quotient \<open>61 / 7\<close> is rounded down, seven times the rounded quotient is rounded to
  the double just below 61, and the index is 60.
\<close>

lemma float64_quotient: "float64 (61 / 7) = 4905706736957147 / 562949953421312"
proof -
  have e: "float_exponent \<bar>61 / 7\<bar> = 3"
    by (simp add: float_exponent_def compute_floorlog)
  have u: "(2::real) powi (3 - 52) = 1 / 562949953421312"
    by (simp add: power_int_minus inverse_eq_divide)
  have r: "round_half_even (61 / 7 / (1 / 562949953421312)) = 4905706736957147"
    by (rule round_half_even_eqI) simp_all
  show ?thesis
    unfolding float64_def e u r Let_def by simp
qed

lemma float64_product:
  "float64 (34339947158700029 / 562949953421312) = 8584986789675007 / 140737488355328"
proof -
  have e: "float_exponent \<bar>34339947158700029 / 562949953421312\<bar> = 5"
    by (simp add: float_exponent_def compute_floorlog)
  have u: "(2::real) powi (5 - 52) = 1 / 140737488355328"
    by (simp add: power_int_minus inverse_eq_divide)
  have r: "round_half_even (34339947158700029 / 562949953421312 / (1 / 140737488355328)) =
             8584986789675007"
    by (rule round_half_even_eqI) simp_all
  show ?thesis
    unfolding float64_def e u r Let_def by simp
qed

lemma float64_double:
  "float64 (8584986789675007 / 140737488355328) = 8584986789675007 / 140737488355328"
proof -
  have e: "float_exponent \<bar>8584986789675007 / 140737488355328\<bar> = 5"
    by (simp add: float_exponent_def compute_floorlog)
  have u: "(2::real) powi (5 - 52) = 1 / 140737488355328"
    by (simp add: power_int_minus inverse_eq_divide)
  have r: "round_half_even (8584986789675007 / 140737488355328 / (1 / 140737488355328)) =
             8584986789675007"
    by (rule round_half_even_eqI) simp_all
  show ?thesis
    unfolding float64_def e u r Let_def by simp
qed

lemma linspace_int_rounded_product: "linspace_int 0 122 15 ! 7 = 60"
proof -
  have q: "real 122 / real 14 = 61 / 7" by simp
  have p: "real 7 * (4905706736957147 / 562949953421312) =
           34339947158700029 / 562949953421312"
    by simp
  have "linspace_int 0 122 (Suc 14) ! 7 =
        nat \<lfloor>float64 (float64 (real 7 * float64 (real 122 / real 14)))\<rfloor>"
    by (rule linspace_int_nth) simp_all
  also have "\<dots> = nat \<lfloor>8584986789675007 / 140737488355328 :: real\<rfloor>"
    unfolding q float64_quotient p float64_product float64_double ..
  also have "\<dots> = 60" by simp
  finally show ?thesis by simp
qed

lemma slice_map: "slice (map f xs) a b = map f (slice xs a b)"
  by (simp add: slice_def take_map drop_map)

lemma slice_zip: "slice (zip xs ys) a b = zip (slice xs a b) (slice ys a b)"
  by (simp add: slice_def take_zip drop_zip)

lemma set_slice: "set (slice xs a b) \<subseteq> set xs"
  by (auto simp: slice_def dest: in_set_takeD in_set_dropD)

lemma look_vectors_slice:
  assumes "look_vectors u lats lons hts l rt = Inr look"
  shows "look_vectors u (slice lats a b) (slice lons a b) (slice hts a b) (los_slice l a b) rt =
           Inr (slice look a b)"
proof (cases "if rt then l else Zenith")
  case Zenith
  then have z: "(if rt then los_slice l a b else Zenith) = Zenith"
    by (cases l) (auto simp: los_slice_def split: if_splits)
  from assms Zenith have "look = map (\<lambda>(lat, lon, h). zenith_look u lat lon h) (zip lats (zip lons hts))"
    by (simp add: look_vectors_def)
  then show ?thesis
    by (simp add: look_vectors_def z slice_map slice_zip)
next
  case (Vectors vs)
  then have rt: rt and l: "l = Vectors vs" by (auto split: if_splits)
  from assms rt l have nz: "\<not> list_ex (\<lambda>v. third v = 0) vs"
    and look: "look = map (rescale_look (zref u)) vs"
    by (auto simp: look_vectors_def split: if_splits)
  from nz have "\<not> list_ex (\<lambda>v. third v = 0) (slice vs a b)"
    using set_slice [of vs a b] by (auto simp: list_ex_iff)
  then show ?thesis
    using rt l look by (simp add: look_vectors_def los_slice_def slice_map)
next
  case (Scalars x)
  with assms show ?thesis by (simp add: look_vectors_def)
qed

lemma correction_slice:
  assumes "correction u l rt = Inr corr"
  shows "correction u (los_slice l a b) rt = Inr (map_option (\<lambda>c. slice c a b) corr)"
proof (cases rt)
  case True
  with assms show ?thesis by (simp add: correction_def)
next
  case False
  with assms obtain an where l: "l = Scalars an"
    and nz: "\<not> list_ex (\<lambda>x. cosd u x = 0) an"
    and corr: "corr = Some (map (\<lambda>x. 1 / cosd u x) an)"
    by (cases l) (auto simp: correction_def split: if_splits)
  from nz have "\<not> list_ex (\<lambda>x. cosd u x = 0) (slice an a b)"
    using set_slice [of an a b] by (auto simp: list_ex_iff)
  then show ?thesis
    using False l corr by (simp add: correction_def los_slice_def slice_map)
qed

lemma store_slice_same: "take a vs @ slice vs a b @ drop (a + length (slice vs a b)) vs = vs"
proof -
  define ys where "ys = drop a vs"
  have "drop (a + length (slice vs a b)) vs = drop (length (take (b - a) ys)) ys"
    by (simp add: slice_def ys_def add.commute)
  moreover have "take (b - a) ys @ drop (length (take (b - a) ys)) ys = ys"
    by (cases "b - a \<le> length ys") (simp_all add: min_def)
  ultimately have "slice vs a b @ drop (a + length (slice vs a b)) vs = drop a vs"
    by (simp add: slice_def ys_def)
  then show ?thesis by simp
qed

lemma los_store_fixed:
  assumes "los_after u l rt = l"
  shows "los_store_slice l a b (los_after u (los_slice l a b) rt) = l"
proof (cases l)
  case Zenith
  then show ?thesis by (simp add: los_slice_def los_after_def los_store_slice_def)
next
  case (Vectors vs)
  show ?thesis
  proof (cases rt)
    case True
    with assms Vectors have "map (rescale_look (zref u)) vs = vs"
      by (simp add: los_after_def)
    then have "map (rescale_look (zref u)) (slice vs a b) = slice vs a b"
      using slice_map [of "rescale_look (zref u)" vs a b] by simp
    then show ?thesis
      using Vectors True
      by (simp add: los_slice_def los_after_def los_store_slice_def store_slice_same)
  next
    case False
    then show ?thesis
      using Vectors
      by (simp add: los_slice_def los_after_def los_store_slice_def store_slice_same)
  qed
next
  case (Scalars x)
  then show ?thesis by (simp add: los_slice_def los_after_def los_store_slice_def)
qed

lemma common_delay_slice:
  assumes lv: "look_vectors u lats lons hts l rt = Inr look"
    and co: "correction u l rt = Inr corr"
    and len: "length lons = length lats" "length hts = length lats" "length look = length lats"
    and lc: "case corr of None \<Rightarrow> True | Some c \<Rightarrow> length c = length lats"
    and ab: "a < b" "b \<le> length lats"
  shows "common_delay u (map g) (slice lats a b) (slice lons a b) (slice hts a b)
           (los_slice l a b) rt =
         Inr (slice (map (point_delay u g lats lons hts look corr) [0..<length lats]) a b)"
proof -
  let ?corr = "map_option (\<lambda>c. slice c a b) corr"
  have lens: "length (slice lons a b) = length (slice lats a b)"
    "length (slice hts a b) = length (slice lats a b)"
    "length (slice look a b) = length (slice lats a b)"
    using len ab by (simp_all add: slice_length)
  have lcs: "case ?corr of None \<Rightarrow> True | Some c \<Rightarrow> length c = length (slice lats a b)"
    using lc ab by (cases corr) (simp_all add: slice_length)
  have ne: "slice lats a b \<noteq> []"
    using ab slice_length [of b lats a] by auto
  define F where "F = (\<lambda>i. ray_delay g (lla2ecef u (slice lats a b ! i) (slice lons a b ! i)
                                   (slice hts a b ! i)) (slice look a b ! i) *
                      (case ?corr of None \<Rightarrow> 1 | Some c \<Rightarrow> c ! i))"
  define P where "P = point_delay u g lats lons hts look corr"
  have "common_delay u (map g) (slice lats a b) (slice lons a b) (slice hts a b)
           (los_slice l a b) rt = Inr (map F [0..<length (slice lats a b)])"
    using common_delay_pointwise
        [OF look_vectors_slice [OF lv] correction_slice [OF co] lens lcs ne, of g]
    by (simp only: F_def)
  also have "map F [0..<length (slice lats a b)] = slice (map P [0..<length lats]) a b"
  proof (rule nth_equalityI)
    show "length (map F [0..<length (slice lats a b)]) =
          length (slice (map P [0..<length lats]) a b)"
      using ab by (simp add: slice_length)
  next
    fix i
    assume "i < length (map F [0..<length (slice lats a b)])"
    then have i: "i < b - a" using ab by (simp add: slice_length)
    then have ai: "a + i < length lats" using ab by simp
    have c: "(case ?corr of None \<Rightarrow> 1 | Some c \<Rightarrow> c ! i) =
             (case corr of None \<Rightarrow> 1 | Some c \<Rightarrow> c ! (a + i))"
      using lc ab i by (cases corr) (simp_all add: slice_nth)
    have e: "slice lats a b ! i = lats ! (a + i)" "slice lons a b ! i = lons ! (a + i)"
      "slice hts a b ! i = hts ! (a + i)" "slice look a b ! i = look ! (a + i)"
      using i ab len by (simp_all add: slice_nth)
    have "F i = P (a + i)"
      by (simp only: F_def P_def point_delay_def e c)
    moreover have "map F [0..<length (slice lats a b)] ! i = F i"
      using i ab by (simp add: slice_length)
    moreover have "slice (map P [0..<length lats]) a b ! i = P (a + i)"
      using i ai ab by (simp add: slice_nth)
    ultimately show "map F [0..<length (slice lats a b)] ! i =
          slice (map P [0..<length lats]) a b ! i"
      by simp
  qed
  finally show ?thesis unfolding P_def .
qed

lemma go_fixed_store:
  assumes pw: "w_hydrostatic_delay w = map gh" "w_wet_delay w = map gw"
    and lv: "look_vectors u lats lons hts l rt = Inr look"
    and co: "correction u l rt = Inr corr"
    and len: "length lons = length lats" "length hts = length lats" "length look = length lats"
    and lc: "case corr of None \<Rightarrow> True | Some c \<Rightarrow> length c = length lats"
    and fx: "los_after u l rt = l"
    and ab: "a < b" "b \<le> length lats"
  shows "go u w lats lons hts rt (''hydro'', a, b) l =
           (Inr (slice (map (point_delay u gh lats lons hts look corr) [0..<length lats]) a b), l)"
    and "go u w lats lons hts rt (''wet'', a, b) l =
           (Inr (slice (map (point_delay u gw lats lons hts look corr) [0..<length lats]) a b), l)"
  using common_delay_slice [OF lv co len lc ab, of gh] common_delay_slice [OF lv co len lc ab, of gw]
    los_store_fixed [OF fx, of a b]
  by (simp_all add: go_def hydrostatic_delay_def wet_delay_def pw)

lemma np_concatenate_Some:
  assumes "rs \<noteq> []"
  shows "np_concatenate (map Some rs) = Inr (concat rs)"
  using assms by (simp add: np_concatenate_def list_ex_iff comp_def)

text \<open>
  For an even number \<open>2 m\<close> of workers the hydrostatic and the wet jobs are cut from
  the same partition. If no range of the partition is empty, the interpolators work
  point by point, the rescaling leaves the line-of-sight array as it is (\<^verbatim>\<open>Zenith\<close>, no
  ray tracing, or look vectors whose third component is the reference height), and
  every job is run, then the parallel call returns what the sequential call returns, in
  whatever order the jobs run.
\<close>

lemma parallel_even_agrees:
  assumes m: "0 < m"
    and parts: "\<forall>i<m. linspace_int 0 (length llas) (Suc m) ! i <
                        linspace_int 0 (length llas) (Suc m) ! Suc i"
    and pw: "w_hydrostatic_delay w = map gh" "w_wet_delay w = map gw"
    and rl: "reshape_los los_arg rt = Inr l"
    and fx: "los_after u l rt = l"
    and sched: "{..<2 * m} \<subseteq> set sched"
    and seq: "delay_from_grid u num_procs' sched' w llas los_arg False rt = Inr r"
  shows "delay_from_grid u (2 * m) sched w llas los_arg True rt = Inr r"
proof -
  define lats where "lats = map fst llas"
  define lons where "lons = map (\<lambda>p. fst (snd p)) llas"
  define hts where "hts = map (\<lambda>p. snd (snd p)) llas"
  define N where "N = length llas"
  have len0: "length lats = N" "length lons = length lats" "length hts = length lats"
    by (simp_all add: lats_def lons_def hts_def N_def)
  from seq rl fx obtain H W where
    H: "common_delay u (map gh) lats lons hts l rt = Inr H"
    and W: "common_delay u (map gw) lats lons hts l rt = Inr W"
    and r: "restore_shape N H W = Inr r"
    unfolding delay_from_grid_def lats_def lons_def hts_def N_def
    by (auto simp: Let_def hydrostatic_delay_def wet_delay_def pw split: sum.splits)
  from H obtain look where lv: "look_vectors u lats lons hts l rt = Inr look"
    by (auto simp: common_delay_def split: sum.splits)
  from common_delay_integrals [OF H lv] obtain corr where
    co: "correction u l rt = Inr corr" and ll: "length look = length lats"
    and lc0: "case corr of None \<Rightarrow> True | Some c \<Rightarrow> length c = length look"
    by (auto split: option.splits)
  have lc: "case corr of None \<Rightarrow> True | Some c \<Rightarrow> length c = length lats"
    using lc0 ll by (cases corr) simp_all
  have "linspace_int 0 (length llas) (Suc m) ! 0 < linspace_int 0 (length llas) (Suc m) ! m"
  proof -
    have "linspace_int 0 (length llas) (Suc m) ! 0 < linspace_int 0 (length llas) (Suc m) ! Suc j"
      if "j < m" for j
      using that
    proof (induction j)
      case 0
      then show ?case using parts by simp
    next
      case (Suc j)
      then have "linspace_int 0 (length llas) (Suc m) ! 0 <
                 linspace_int 0 (length llas) (Suc m) ! Suc j"
        by simp
      also have "\<dots> < linspace_int 0 (length llas) (Suc m) ! Suc (Suc j)"
        using parts Suc.prems by simp
      finally show ?case .
    qed
    from this [of "m - 1"] m show ?thesis by simp
  qed
  then have "linspace_int 0 (length llas) (Suc m) ! 0 < length llas"
    unfolding linspace_int_last [OF m, of "length llas"] .
  then have "0 < length llas" by arith
  then have ne: "lats \<noteq> []" using len0 by (auto simp: N_def)
  define PH where "PH = map (point_delay u gh lats lons hts look corr) [0..<length lats]"
  define PW where "PW = map (point_delay u gw lats lons hts look corr) [0..<length lats]"
  have HP: "H = PH"
    using H common_delay_pointwise [OF lv co len0(2,3) ll lc ne, of gh]
    by (auto simp: PH_def point_delay_def [abs_def])
  have WP: "W = PW"
    using W common_delay_pointwise [OF lv co len0(2,3) ll lc ne, of gw]
    by (auto simp: PW_def point_delay_def [abs_def])
  have lH: "length PH = N" and lW: "length PW = N"
    by (simp_all add: PH_def PW_def len0)
  define h where "h = (\<lambda>i. linspace_int 0 N (Suc m) ! i)"
  have h0: "h 0 = 0" and hm: "h m = N"
    using linspace_int_first [OF m] linspace_int_last [OF m] by (simp_all add: h_def)
  have hstrict: "\<forall>i<m. h i < h (Suc i)"
    using parts by (simp add: h_def N_def)
  then have hmono: "\<forall>i<m. h i \<le> h (Suc i)"
    by (simp add: less_imp_le)
  have hup: "h (m - d) \<le> N" for d
  proof (induction d)
    case 0
    then show ?case using hm by simp
  next
    case (Suc d)
    show ?case
    proof (cases "d < m")
      case True
      then have "m - Suc d < m" and "Suc (m - Suc d) = m - d" by simp_all
      with hmono have "h (m - Suc d) \<le> h (m - d)" by metis
      with Suc show ?thesis by simp
    next
      case False
      then have "m - Suc d = m - d" by simp
      with Suc show ?thesis by simp
    qed
  qed
  have hle: "h i \<le> N" if "i \<le> m" for i
    using hup [of "m - i"] that by simp
  define J where "J = map (\<lambda>i. (''hydro'', h i, h (Suc i))) [0..<m] @
                      map (\<lambda>i. (''wet'', h i, h (Suc i))) [0..<m]"
  have lJ: "length J = 2 * m" by (simp add: J_def)
  have mk: "make_job kind (linspace_int 0 N (Suc m)) i = Inr (kind, h i, h (Suc i))"
    if "i < m" for kind i
    using that by (simp add: make_job_def getitem_def linspace_int_length h_def)
  have jobs: "collect (map (make_job ''hydro'' (linspace_int 0 N (Suc m))) [0..<m] @
                       map (make_job ''wet'' (linspace_int 0 N (Suc m))) [0..<m]) = Inr J"
  proof -
    have "map (make_job ''hydro'' (linspace_int 0 N (Suc m))) [0..<m] @
          map (make_job ''wet'' (linspace_int 0 N (Suc m))) [0..<m] = map Inr J"
      using mk by (simp add: J_def)
    moreover have "collect (map Inr J) = Inr (map (\<lambda>x. x) J)"
      by (rule collect_map_Inr) simp
    ultimately show ?thesis by simp
  qed
  define rr where "rr = (\<lambda>k. if k < m then slice PH (h k) (h (Suc k))
                              else slice PW (h (k - m)) (h (Suc (k - m))))"
  have pure: "\<forall>k<length J. go u w lats lons hts rt (J ! k) l = (Inr (rr k), l)"
  proof (intro allI impI)
    fix k assume "k < length J"
    then have k: "k < 2 * m" by (simp add: lJ)
    show "go u w lats lons hts rt (J ! k) l = (Inr (rr k), l)"
    proof (cases "k < m")
      case True
      then have j: "J ! k = (''hydro'', h k, h (Suc k))" by (simp add: J_def nth_append)
      have ab: "h k < h (Suc k)" "h (Suc k) \<le> length lats"
        using True hstrict hle [of "Suc k"] len0 by simp_all
      show ?thesis
        unfolding j using go_fixed_store(1) [OF pw lv co len0(2,3) ll lc fx ab] True
        by (simp add: rr_def PH_def)
    next
      case False
      with k have km: "k - m < m" by simp
      from False km have j: "J ! k = (''wet'', h (k - m), h (Suc (k - m)))"
        by (simp add: J_def nth_append)
      have ab: "h (k - m) < h (Suc (k - m))" "h (Suc (k - m)) \<le> length lats"
        using km hstrict hle [of "Suc (k - m)"] len0 by simp_all
      show ?thesis
        unfolding j using go_fixed_store(2) [OF pw lv co len0(2,3) ll lc fx ab] False
        by (simp add: rr_def PW_def)
    qed
  qed
  have run: "run_jobs (go u w lats lons hts rt) J sched (replicate (length J) None, l) =
             (map (\<lambda>k. Some (rr k)) [0..<2 * m], l)"
  proof -
    have "run_jobs (go u w lats lons hts rt) J sched (replicate (length J) None, l) =
          (map (\<lambda>k. if k \<in> set sched then Some (rr k) else replicate (length J) None ! k)
             [0..<length J], l)"
      by (rule run_jobs_pure
          [of J "go u w lats lons hts rt" l rr "replicate (length J) None" sched, OF pure])
        simp
    also have "map (\<lambda>k. if k \<in> set sched then Some (rr k) else replicate (length J) None ! k)
                 [0..<length J] = map (\<lambda>k. Some (rr k)) [0..<2 * m]"
      unfolding lJ using sched by (intro map_cong [OF refl]) auto
    finally show ?thesis .
  qed
  have par: "parmap (go u w lats lons hts rt)
               (map (make_job ''hydro'' (linspace_int 0 N (Suc m))) [0..<m] @
                map (make_job ''wet'' (linspace_int 0 N (Suc m))) [0..<m]) sched l =
             Inr (map (\<lambda>k. Some (rr k)) [0..<2 * m], l)"
    unfolding parmap_def jobs using run by simp
  have tk: "take m (map (\<lambda>k. Some (rr k)) [0..<2 * m]) =
            map Some (map (\<lambda>i. slice PH (h i) (h (Suc i))) [0..<m])"
    by (simp add: take_map rr_def)
  have dr: "drop m (map (\<lambda>k. Some (rr k)) [0..<2 * m]) =
            map Some (map (\<lambda>i. slice PW (h i) (h (Suc i))) [0..<m])"
  proof -
    have "drop m (map (\<lambda>k. Some (rr k)) [0..<2 * m]) = map (\<lambda>k. Some (rr k)) [m..<2 * m]"
      by (simp add: drop_map)
    also have "[m..<2 * m] = map (\<lambda>i. i + m) [0..<m]"
      by (simp add: map_add_upt mult_2)
    also have "map (\<lambda>k. Some (rr k)) (map (\<lambda>i. i + m) [0..<m]) =
               map Some (map (\<lambda>i. slice PW (h i) (h (Suc i))) [0..<m])"
      by (simp add: rr_def)
    finally show ?thesis .
  qed
  have cH: "np_concatenate (take m (map (\<lambda>k. Some (rr k)) [0..<2 * m])) = Inr PH"
  proof -
    have "concat (map (\<lambda>i. slice PH (h i) (h (Suc i))) [0..<m]) = take (h m) PH"
      by (rule concat_slices [OF h0 hmono]) simp
    then have c: "concat (map (\<lambda>i. slice PH (h i) (h (Suc i))) [0..<m]) = PH"
      using hm lH by simp
    have "np_concatenate (map Some (map (\<lambda>i. slice PH (h i) (h (Suc i))) [0..<m])) =
          Inr (concat (map (\<lambda>i. slice PH (h i) (h (Suc i))) [0..<m]))"
      by (rule np_concatenate_Some) (use m in simp)
    then show ?thesis
      unfolding tk c .
  qed
  have cW: "np_concatenate (drop m (map (\<lambda>k. Some (rr k)) [0..<2 * m])) = Inr PW"
  proof -
    have "concat (map (\<lambda>i. slice PW (h i) (h (Suc i))) [0..<m]) = take (h m) PW"
      by (rule concat_slices [OF h0 hmono]) simp
    then have c: "concat (map (\<lambda>i. slice PW (h i) (h (Suc i))) [0..<m]) = PW"
      using hm lW by simp
    have "np_concatenate (map Some (map (\<lambda>i. slice PW (h i) (h (Suc i))) [0..<m])) =
          Inr (concat (map (\<lambda>i. slice PW (h i) (h (Suc i))) [0..<m]))"
      by (rule np_concatenate_Some) (use m in simp)
    then show ?thesis
      unfolding dr c .
  qed
  have d: "(2 * m) div 2 = m" "2 * m - m = m" by simp_all
  show ?thesis
    unfolding delay_from_grid_def Let_def d
    using rl par cH cW r
    by (simp add: lats_def [symmetric] lons_def [symmetric] hts_def [symmetric]
        N_def [symmetric] HP WP)
qed

text \<open>
  No range is empty where every job gets the same number of points, at least one.
\<close>

lemma parallel_even_agrees_equal_parts:
  assumes m: "0 < m"
    and k: "0 < k" "length llas = m * k" "m * k < 2 ^ 53"
    and pw: "w_hydrostatic_delay w = map gh" "w_wet_delay w = map gw"
    and rl: "reshape_los los_arg rt = Inr l"
    and fx: "los_after u l rt = l"
    and sched: "{..<2 * m} \<subseteq> set sched"
    and seq: "delay_from_grid u num_procs' sched' w llas los_arg False rt = Inr r"
  shows "delay_from_grid u (2 * m) sched w llas los_arg True rt = Inr r"
proof (rule parallel_even_agrees [OF m _ pw rl fx sched seq])
  show "\<forall>i<m. linspace_int 0 (length llas) (Suc m) ! i <
                 linspace_int 0 (length llas) (Suc m) ! Suc i"
  proof (intro allI impI)
    fix i assume i: "i < m"
    then have "linspace_int 0 (m * k) (Suc m) ! i = i * k"
      and "linspace_int 0 (m * k) (Suc m) ! Suc i = Suc i * k"
      using linspace_int_equal_parts [OF m _ k(3)] by simp_all
    then show "linspace_int 0 (length llas) (Suc m) ! i <
               linspace_int 0 (length llas) (Suc m) ! Suc i"
      using k(1) by (simp add: k(2))
  qed
qed

lemma parallel_even_agrees_two_workers:
  "delay_from_grid sample_util (2 * 1) [1, 0] sample_weather [(0, 0, 14998)] Zenith True True =
     Inr ([0.00046], [0.00002])"
proof (rule parallel_even_agrees_equal_parts
    [where gh = "\<lambda>p. 230" and gw = "\<lambda>p. 10" and l = Zenith and k = 1])
  show "{..<2 * 1} \<subseteq> set [1, 0 :: nat]" by auto
  show "delay_from_grid sample_util 0 [] sample_weather [(0, 0, 14998)] Zenith False True =
          Inr ([0.00046], [0.00002])"
    by (rule sequential_one_point)
qed (simp_all add: sample_weather_def reshape_los_def los_after_def)

end
